theory Spec2Isabelle
  imports Complex_Main
begin

section \<open>Strings and the tokenizer\<close>

text \<open>
  JavaScript strings are sequences of code units. They are modelled as \<open>string\<close>
  (a \<open>char list\<close>), one \<open>char\<close> per code unit below 256. \<open>trim\<close> removes the
  white space of that range at both ends, \<open>toLowerCase\<close> maps the upper-case letters of
  that range.
\<close>

definition DQUOTE :: char where
  "DQUOTE = CHR 0x22"

definition APOS :: char where
  "APOS = CHR 0x27"

definition isWhiteSpace :: "char \<Rightarrow> bool" where
  "isWhiteSpace c = ((of_char c :: nat) \<in> set [9, 10, 11, 12, 13, 32, 160])"

definition trim :: "string \<Rightarrow> string" where
  "trim s = rev (dropWhile isWhiteSpace (rev (dropWhile isWhiteSpace s)))"

definition toLowerChar :: "char \<Rightarrow> char" where
  "toLowerChar c =
     (let n = (of_char c :: nat)
      in if (65 \<le> n \<and> n \<le> 90) \<or> (192 \<le> n \<and> n \<le> 222 \<and> n \<noteq> 215)
         then char_of (n + 32) else c)"

definition toLowerCase :: "string \<Rightarrow> string" where
  "toLowerCase s = map toLowerChar s"

text \<open>The decimal digits of a natural number, as a template literal prints it.\<close>

fun natToString :: "nat \<Rightarrow> string" where
  "natToString n =
     (if n < 10 then [char_of (48 + n)]
      else natToString (n div 10) @ [char_of (48 + n mod 10)])"

declare natToString.simps [simp del]

text \<open>
  The constructor of \<open>XPather\<close>: \<open>expression.split(/([/()[\]"'=<>])/).filter(token => token)\<close>.
  A split on a regular expression with a capturing group keeps every separator as a
  fragment of its own, between the (possibly empty) fragments it separates.
\<close>

definition isDelimiter :: "char \<Rightarrow> bool" where
  "isDelimiter c = (c \<in> set ''/()[]=<>'' \<or> c = DQUOTE \<or> c = APOS)"

fun splitDelimiters :: "string \<Rightarrow> string \<Rightarrow> string list" where
  "splitDelimiters cur [] = [rev cur]"
| "splitDelimiters cur (c # cs) =
     (if isDelimiter c then rev cur # [c] # splitDelimiters [] cs
      else splitDelimiters (c # cur) cs)"

definition tokenize :: "string \<Rightarrow> string list" where
  "tokenize expression = filter (\<lambda>token. token \<noteq> []) (splitDelimiters [] expression)"

text \<open>
  \<open>this.tokenArray[i]\<close> is \<open>undefined\<close> outside the array: \<open>tokenAt\<close> returns \<open>None\<close>
  there.
\<close>

definition tokenAt :: "string list \<Rightarrow> int \<Rightarrow> string option" where
  "tokenAt ts i = (if 0 \<le> i \<and> i < int (length ts) then Some (ts ! nat i) else None)"

definition isToken :: "string list \<Rightarrow> string \<Rightarrow> int \<Rightarrow> bool" where
  "isToken ts token index =
     (index \<ge> 0 \<and> index < int (length ts) \<and> trim (ts ! nat index) = trim token)"

text \<open>\<open>Array.prototype.slice\<close>, with its treatment of negative and too large indices.\<close>

definition jsSlice :: "'a list \<Rightarrow> int \<Rightarrow> int \<Rightarrow> 'a list" where
  "jsSlice xs start fin =
     (let len = int (length xs);
          k = (if start < 0 then max (len + start) 0 else min start len);
          final = (if fin < 0 then max (len + fin) 0 else min fin len)
      in take (nat (final - k)) (drop (nat k) xs))"

definition flatten :: "string list \<Rightarrow> int \<Rightarrow> int \<Rightarrow> string" where
  "flatten ts from to = (if from \<le> to then concat (jsSlice ts from (to + 1)) else [])"

section \<open>Token classifiers\<close>

definition C0 :: char where "C0 = CHR ''0''"

definition C9 :: char where "C9 = CHR ''9''"

definition CD :: char where "CD = CHR ''.''"

definition CP :: char where "CP = CHR ''+''"

definition CM :: char where "CM = CHR ''-''"

definition CS :: char where "CS = CHR '' ''"

text \<open>Comparison of one-character strings: by code unit.\<close>

definition charLess :: "char \<Rightarrow> char \<Rightarrow> bool" where
  "charLess a b = ((of_char a :: nat) < of_char b)"

definition charLessEq :: "char \<Rightarrow> char \<Rightarrow> bool" where
  "charLessEq a b = ((of_char a :: nat) \<le> of_char b)"

fun isValidDoubleLoop :: "string \<Rightarrow> bool" where
  "isValidDoubleLoop [] = True"
| "isValidDoubleLoop (c # cs) =
     (if c \<noteq> CD \<and> (charLess c C0 \<or> charLess C9 c) then False else isValidDoubleLoop cs)"

definition isValidDouble :: "string \<Rightarrow> bool" where
  "isValidDouble v =
     (case v of
        [] \<Rightarrow> False
      | c # rest \<Rightarrow>
          if c = CP \<or> c = CM \<or> c = CS \<or> (charLessEq C0 c \<and> charLessEq c C9)
          then isValidDoubleLoop rest else False)"

fun isValidIntegerLoop :: "string \<Rightarrow> bool" where
  "isValidIntegerLoop [] = True"
| "isValidIntegerLoop (c # cs) =
     (if charLess c C0 \<or> charLess C9 c then False else isValidIntegerLoop cs)"

definition isValidInteger :: "string \<Rightarrow> bool" where
  "isValidInteger v =
     (case v of
        [] \<Rightarrow> False
      | c # rest \<Rightarrow>
          if c = CP \<or> c = CM \<or> (charLessEq C0 c \<and> charLessEq c C9)
          then isValidIntegerLoop rest else False)"

definition isAtt :: "string \<Rightarrow> bool" where
  "isAtt token = (length token > 1 \<and> take 1 token = ''@'')"

text \<open>The regular expression \<open>/^[a-z][\w-]*$/i\<close> of \<open>isIdentifier\<close>.\<close>

definition isLetter :: "char \<Rightarrow> bool" where
  "isLetter c = (let n = (of_char c :: nat) in (65 \<le> n \<and> n \<le> 90) \<or> (97 \<le> n \<and> n \<le> 122))"

definition isDigit :: "char \<Rightarrow> bool" where
  "isDigit c = (let n = (of_char c :: nat) in 48 \<le> n \<and> n \<le> 57)"

definition isWordChar :: "char \<Rightarrow> bool" where
  "isWordChar c = (isLetter c \<or> isDigit c \<or> c = CHR ''_'')"

definition identifierRegex :: "string \<Rightarrow> bool" where
  "identifierRegex s =
     (case s of
        [] \<Rightarrow> False
      | c # rest \<Rightarrow> isLetter c \<and> list_all (\<lambda>d. isWordChar d \<or> d = CHR ''-'') rest)"

definition isIdentifier :: "string \<Rightarrow> bool" where
  "isIdentifier s0 =
     (let s = trim s0
      in if length s > 0 then (if \<not> identifierRegex s then False else False) else False)"

section \<open>Numbers\<close>

text \<open>
  A JavaScript number is modelled by its exact value, or \<open>NaN\<close>; the rounding of a
  literal to the nearest double is not modelled (the evaluator only compares numbers).
  \<open>parseInt\<close> and \<open>parseFloat\<close> are modelled on decimal digits, signs and one decimal
  point, which is all a token accepted by \<open>isValidInteger\<close> or \<open>isValidDouble\<close> holds.
\<close>

datatype jsnumber = Num rat | NaN

definition digitsValue :: "string \<Rightarrow> nat" where
  "digitsValue ds = foldl (\<lambda>a c. 10 * a + (of_char c - 48)) 0 ds"

definition stripSign :: "string \<Rightarrow> bool \<times> string" where
  "stripSign t =
     (case t of
        [] \<Rightarrow> (False, [])
      | c # r \<Rightarrow> if c = CM then (True, r) else if c = CP then (False, r) else (False, t))"

definition parseInt :: "string \<Rightarrow> jsnumber" where
  "parseInt s =
     (let (neg, u) = stripSign (dropWhile isWhiteSpace s);
          ds = takeWhile isDigit u
      in if ds = [] then NaN
         else Num (of_int ((if neg then - 1 else 1) * int (digitsValue ds))))"

definition parseFloat :: "string \<Rightarrow> jsnumber" where
  "parseFloat s =
     (let (neg, u) = stripSign (dropWhile isWhiteSpace s);
          ip = takeWhile isDigit u;
          fp = (case dropWhile isDigit u of
                  [] \<Rightarrow> []
                | c # r \<Rightarrow> if c = CD then takeWhile isDigit r else [])
      in if ip = [] \<and> fp = [] then NaN
         else Num ((if neg then - 1 else 1) *
                   (of_nat (digitsValue ip) + of_nat (digitsValue fp) / 10 ^ length fp)))"

definition numEq :: "jsnumber \<Rightarrow> jsnumber \<Rightarrow> bool" where
  "numEq a b = (case (a, b) of (Num x, Num y) \<Rightarrow> x = y | _ \<Rightarrow> False)"

definition numLess :: "jsnumber \<Rightarrow> jsnumber \<Rightarrow> bool" where
  "numLess a b = (case (a, b) of (Num x, Num y) \<Rightarrow> x < y | _ \<Rightarrow> False)"

definition numLessEq :: "jsnumber \<Rightarrow> jsnumber \<Rightarrow> bool" where
  "numLessEq a b = (case (a, b) of (Num x, Num y) \<Rightarrow> x \<le> y | _ \<Rightarrow> False)"

section \<open>The DOM\<close>

text \<open>
  A node carries its identity (a number, unique in a document), so that two elements
  with the same markup are different values, as two objects are. The parent of a node
  is looked up in the tree that holds it.
\<close>

datatype node =
    Element nat string "(string \<times> string) list" "node list"
  | Text nat string
  | Document nat "node list"

fun isElementNode :: "node \<Rightarrow> bool" where
  "isElementNode (Element i n as cs) = True"
| "isElementNode (Text i s) = False"
| "isElementNode (Document i cs) = False"

fun nodeName :: "node \<Rightarrow> string" where
  "nodeName (Element i n as cs) = n"
| "nodeName (Text i s) = ''#text''"
| "nodeName (Document i cs) = ''#document''"

fun nodeType :: "node \<Rightarrow> nat" where
  "nodeType (Element i n as cs) = 1"
| "nodeType (Text i s) = 3"
| "nodeType (Document i cs) = 9"

fun childNodes :: "node \<Rightarrow> node list" where
  "childNodes (Element i n as cs) = cs"
| "childNodes (Text i s) = []"
| "childNodes (Document i cs) = cs"

fun attributes :: "node \<Rightarrow> (string \<times> string) list" where
  "attributes (Element i n as cs) = as"
| "attributes (Text i s) = []"
| "attributes (Document i cs) = []"

fun textContent :: "node \<Rightarrow> string" where
  "textContent (Element i n as cs) = concat (map textContent cs)"
| "textContent (Text i s) = s"
| "textContent (Document i cs) = []"

fun firstSome :: "'a option list \<Rightarrow> 'a option" where
  "firstSome [] = None"
| "firstSome (None # xs) = firstSome xs"
| "firstSome (Some x # xs) = Some x"

fun parentNode :: "node \<Rightarrow> node \<Rightarrow> node option" where
  "parentNode (Element i n as cs) el =
     (if el \<in> set cs then Some (Element i n as cs)
      else firstSome (map (\<lambda>c. parentNode c el) cs))"
| "parentNode (Text i s) el = None"
| "parentNode (Document i cs) el =
     (if el \<in> set cs then Some (Document i cs)
      else firstSome (map (\<lambda>c. parentNode c el) cs))"

section \<open>Results, errors and the runtime\<close>

datatype XPatherResult = VBool bool | VNum jsnumber | VStr string | VElem node

datatype error = XPatherException "string option" | TypeError | JsError string

text \<open>
  What the code takes from the JavaScript runtime and the document: the collation of
  \<open>String.prototype.localeCompare\<close>, the conversion of a number to a string, and the
  tree in which \<open>parentNode\<close> is read.
\<close>

record runtime =
  localeCompare :: "string \<Rightarrow> string \<Rightarrow> int"
  numberToString :: "jsnumber \<Rightarrow> string"
  topNode :: node

definition throwStandardException :: "error + 'a" where
  "throwStandardException = Inl (XPatherException None)"

definition isElement :: "XPatherResult \<Rightarrow> bool" where
  "isElement v = (case v of VElem el \<Rightarrow> True | _ \<Rightarrow> False)"

definition isString :: "XPatherResult \<Rightarrow> bool" where
  "isString v = (case v of VStr s \<Rightarrow> True | _ \<Rightarrow> False)"

definition toText :: "runtime \<Rightarrow> XPatherResult \<Rightarrow> string" where
  "toText w v =
     (case v of
        VElem el \<Rightarrow> textContent el
      | VStr s \<Rightarrow> s
      | VNum n \<Rightarrow> numberToString w n
      | VBool b \<Rightarrow> (if b then ''true'' else ''false''))"

text \<open>A \<open>Set\<close> keeps its members in insertion order: a list without repetition.\<close>

definition setAdd :: "'a list \<Rightarrow> 'a \<Rightarrow> 'a list" where
  "setAdd target v = (if v \<in> set target then target else target @ [v])"

definition addAll :: "'a list \<Rightarrow> 'a list \<Rightarrow> 'a list" where
  "addAll target source = foldl setAdd target source"

section \<open>TagNode methods\<close>

fun findMatchingTagNodes :: "node \<Rightarrow> (node \<Rightarrow> bool) \<Rightarrow> bool \<Rightarrow> node list" where
  "findMatchingTagNodes (Element i n as cs) condition isRecursive =
     concat (map (\<lambda>currNode.
        case currNode of
          Element j m bs ds \<Rightarrow>
            (if condition currNode then [currNode] else []) @
            (if isRecursive then findMatchingTagNodes currNode condition isRecursive else [])
        | _ \<Rightarrow> []) cs)"
| "findMatchingTagNodes (Text i s) condition isRecursive = []"
| "findMatchingTagNodes (Document i cs) condition isRecursive =
     concat (map (\<lambda>currNode.
        case currNode of
          Element j m bs ds \<Rightarrow>
            (if condition currNode then [currNode] else []) @
            (if isRecursive then findMatchingTagNodes currNode condition isRecursive else [])
        | _ \<Rightarrow> []) cs)"

definition getAllElementsList :: "node \<Rightarrow> bool \<Rightarrow> node list" where
  "getAllElementsList el isRecursive = findMatchingTagNodes el (\<lambda>e. True) isRecursive"

definition getAttributeByName :: "node \<Rightarrow> string \<Rightarrow> string option" where
  "getAttributeByName el attName = map_of (attributes el) attName"

text \<open>
  \<open>getAttributes\<close> fills an object, one property per attribute, in the order of the
  attributes; a name met again keeps its place and takes the later value.
\<close>

fun recordSet :: "(string \<times> string) list \<Rightarrow> string \<Rightarrow> string \<Rightarrow> (string \<times> string) list" where
  "recordSet [] k v = [(k, v)]"
| "recordSet ((k', v') # r) k v = (if k' = k then (k, v) # r else (k', v') # recordSet r k v)"

definition getAttributes :: "node \<Rightarrow> (string \<times> string) list" where
  "getAttributes el = foldl (\<lambda>r (k, v). recordSet r k v) [] (attributes el)"

definition objectValues :: "(string \<times> string) list \<Rightarrow> string list" where
  "objectValues r = map snd r"

definition getChildTagList :: "node \<Rightarrow> node list" where
  "getChildTagList el = filter isElementNode (childNodes el)"

definition getElementListByName :: "node \<Rightarrow> string \<Rightarrow> bool \<Rightarrow> node list" where
  "getElementListByName el findName isRecursive =
     findMatchingTagNodes el
       (\<lambda>e. toLowerCase (nodeName e) = toLowerCase findName) isRecursive"

definition getParent :: "runtime \<Rightarrow> node \<Rightarrow> error + node option" where
  "getParent w el =
     (case parentNode (topNode w) el of
        None \<Rightarrow> Inr None
      | Some parent \<Rightarrow>
          if nodeType parent \<noteq> 1
          then Inl (JsError (''Parent node is not an TagNode (nodeType: '' @
                             natToString (nodeType parent) @ '')''))
          else Inr (Some parent))"

section \<open>Comparison\<close>

definition evaluateLogic ::
  "runtime \<Rightarrow> XPatherResult list option \<Rightarrow> XPatherResult list option \<Rightarrow> string \<Rightarrow> bool" where
  "evaluateLogic w first second logicOperator =
     (case (first, second) of
        (Some (elem1 # r1), Some (elem2 # r2)) \<Rightarrow>
          (case (elem1, elem2) of
             (VNum n1, VNum n2) \<Rightarrow>
               if logicOperator = ''='' then numEq n1 n2
               else if logicOperator = ''<'' then numLess n1 n2
               else if logicOperator = ''>'' then numLess n2 n1
               else if logicOperator = ''<='' then numLessEq n1 n2
               else if logicOperator = ''>='' then numLessEq n2 n1
               else False
           | _ \<Rightarrow>
               (let s1 = toText w elem1;
                    s2 = toText w elem2;
                    result = localeCompare w s1 s2
                in if logicOperator = ''='' then result = 0
                   else if logicOperator = ''<'' then result < 0
                   else if logicOperator = ''>'' then result > 0
                   else if logicOperator = ''<='' then result \<le> 0
                   else if logicOperator = ''>='' then result \<ge> 0
                   else False))
      | _ \<Rightarrow> False)"

section \<open>The bracket matcher\<close>

text \<open>
  \<open>findClosingIndex\<close>. Its loops run over the token indices \<open>from + 1\<close> to \<open>to\<close>:
  \<open>quoteLoop\<close> is the search for the closing quote, \<open>bracketLoop\<close> the scan that counts
  brackets and slashes. \<open>scanStep\<close> is the chain of tests in the body of that scan,
  \<open>scanClosed\<close> the test that ends it. A token index outside the array reads
  \<open>undefined\<close>, which equals no token.
\<close>

function quoteLoop :: "string list \<Rightarrow> string \<Rightarrow> int \<Rightarrow> int \<Rightarrow> int" where
  "quoteLoop ts q i to =
     (if i \<le> to then (if tokenAt ts i = Some q then i else quoteLoop ts q (i + 1) to)
      else - 1)"
  by pat_completeness auto

termination
  by (relation "measure (\<lambda>(ts, q, i, to). nat (to + 1 - i))") auto

type_synonym scanState = "bool \<times> bool \<times> int \<times> int \<times> int"

definition scanStep :: "string option \<Rightarrow> scanState \<Rightarrow> scanState" where
  "scanStep tok st =
     (case st of (isQuoteClosed, isAposClosed, brackets, angleBrackets, slashes) \<Rightarrow>
        if tok = Some [DQUOTE] then (\<not> isQuoteClosed, isAposClosed, brackets, angleBrackets, slashes)
        else if tok = Some [APOS] then (isQuoteClosed, \<not> isAposClosed, brackets, angleBrackets, slashes)
        else if tok = Some ''('' \<and> isQuoteClosed \<and> isAposClosed
          then (isQuoteClosed, isAposClosed, brackets + 1, angleBrackets, slashes)
        else if tok = Some '')'' \<and> isQuoteClosed \<and> isAposClosed
          then (isQuoteClosed, isAposClosed, brackets - 1, angleBrackets, slashes)
        else if tok = Some ''['' \<and> isQuoteClosed \<and> isAposClosed
          then (isQuoteClosed, isAposClosed, brackets, angleBrackets + 1, slashes)
        else if tok = Some '']'' \<and> isQuoteClosed \<and> isAposClosed
          then (isQuoteClosed, isAposClosed, brackets, angleBrackets - 1, slashes)
        else if tok = Some ''/'' \<and> isQuoteClosed \<and> isAposClosed \<and> brackets = 0 \<and> angleBrackets = 0
          then (isQuoteClosed, isAposClosed, brackets, angleBrackets, slashes - 1)
        else st)"

definition scanClosed :: "scanState \<Rightarrow> bool" where
  "scanClosed st =
     (case st of (isQuoteClosed, isAposClosed, brackets, angleBrackets, slashes) \<Rightarrow>
        isQuoteClosed \<and> isAposClosed \<and> brackets = 0 \<and> angleBrackets = 0 \<and> slashes = 0)"

function bracketLoop :: "string list \<Rightarrow> int \<Rightarrow> int \<Rightarrow> scanState \<Rightarrow> int" where
  "bracketLoop ts i to st =
     (if i \<le> to then
        (let st' = scanStep (tokenAt ts i) st
         in if scanClosed st' then i else bracketLoop ts (i + 1) to st')
      else - 1)"
  by pat_completeness auto

termination
  by (relation "measure (\<lambda>(ts, i, to, st). nat (to + 1 - i))") auto

definition findClosingIndex :: "string list \<Rightarrow> int \<Rightarrow> int \<Rightarrow> int" where
  "findClosingIndex ts from to =
     (if from < to then
        (let currToken = tokenAt ts from
         in if currToken = Some [DQUOTE] then quoteLoop ts [DQUOTE] (from + 1) to
            else if currToken = Some [APOS] then quoteLoop ts [APOS] (from + 1) to
            else if currToken = Some ''('' \<or> currToken = Some ''['' \<or> currToken = Some ''/''
              then bracketLoop ts (from + 1) to
                     (True, True,
                      if currToken = Some ''('' then 1 else 0,
                      if currToken = Some ''['' then 1 else 0,
                      if currToken = Some ''/'' then 1 else 0)
            else - 1)
      else - 1)"

text \<open>
  \<open>isFunctionCall\<close> is only called on a token index inside the array. \<open>isIdentifier\<close>
  returns \<open>false\<close> on every string, so the first test only asks whether the next token
  is an opening parenthesis.
\<close>

definition isFunctionCall :: "string list \<Rightarrow> int \<Rightarrow> int \<Rightarrow> bool" where
  "isFunctionCall ts from to =
     (case tokenAt ts from of
        None \<Rightarrow> False
      | Some tk \<Rightarrow>
          if \<not> isIdentifier tk \<and> \<not> isToken ts ''('' (from + 1) then False
          else findClosingIndex ts (from + 1) to > from + 1)"

declare quoteLoop.simps [simp del] bracketLoop.simps [simp del]

lemma quoteLoop_bounds: "quoteLoop ts q i to = - 1 \<or> (i \<le> quoteLoop ts q i to \<and> quoteLoop ts q i to \<le> to)"
proof (induction ts q i to rule: quoteLoop.induct)
  case (1 ts q i to)
  then show ?case
    by (subst (1 2 3) quoteLoop.simps) auto
qed

lemma bracketLoop_bounds:
  "bracketLoop ts i to st = - 1 \<or> (i \<le> bracketLoop ts i to st \<and> bracketLoop ts i to st \<le> to)"
proof (induction ts i to st rule: bracketLoop.induct)
  case (1 ts i to st)
  show ?case
  proof (cases "i \<le> to \<and> \<not> scanClosed (scanStep (tokenAt ts i) st)")
    case True
    then have ih: "bracketLoop ts (i + 1) to (scanStep (tokenAt ts i) st) = - 1 \<or>
        (i + 1 \<le> bracketLoop ts (i + 1) to (scanStep (tokenAt ts i) st) \<and>
         bracketLoop ts (i + 1) to (scanStep (tokenAt ts i) st) \<le> to)"
      using 1[OF _ refl] by simp
    have "bracketLoop ts i to st = bracketLoop ts (i + 1) to (scanStep (tokenAt ts i) st)"
      using True by (subst bracketLoop.simps) (simp add: Let_def)
    then show ?thesis using ih by auto
  next
    case False
    then show ?thesis
      by (subst (1 2 3) bracketLoop.simps) (auto simp: Let_def)
  qed
qed

lemma findClosingIndex_bounds:
  "findClosingIndex ts from to = - 1 \<or>
   (from < findClosingIndex ts from to \<and> findClosingIndex ts from to \<le> to)"
proof -
  have q: "\<And>q. quoteLoop ts q (from + 1) to = - 1 \<or>
     (from < quoteLoop ts q (from + 1) to \<and> quoteLoop ts q (from + 1) to \<le> to)"
    using quoteLoop_bounds[of ts _ "from + 1" to] by force
  have b: "\<And>st. bracketLoop ts (from + 1) to st = - 1 \<or>
     (from < bracketLoop ts (from + 1) to st \<and> bracketLoop ts (from + 1) to st \<le> to)"
    using bracketLoop_bounds[of ts "from + 1" to] by force
  show ?thesis
    unfolding findClosingIndex_def Let_def using q b by simp
qed

section \<open>The evaluator\<close>

text \<open>
  A loop that an exception can leave: the fold stops at the first failure.
\<close>

fun foldE :: "('a \<Rightarrow> 'b \<Rightarrow> error + 'b) \<Rightarrow> 'a list \<Rightarrow> 'b \<Rightarrow> error + 'b" where
  "foldE f [] acc = Inr acc"
| "foldE f (x # xs) acc = (case f x acc of Inl e \<Rightarrow> Inl e | Inr acc' \<Rightarrow> foldE f xs acc')"

lemma foldE_cong [fundef_cong]:
  "xs = ys \<Longrightarrow> a = b \<Longrightarrow> (\<And>x s. x \<in> set ys \<Longrightarrow> f x s = g x s) \<Longrightarrow> foldE f xs a = foldE g ys b"
proof (induction ys arbitrary: xs a b)
  case Nil
  then show ?case by simp
next
  case (Cons y ys)
  then show ?case by (auto split: sum.splits)
qed

text \<open>
  The measure that decreases along the calls of the evaluator: first the number of
  tokens of the range (with the order in which the four functions call each other on
  one range), then the size of the elements of the source, for the descent of
  \<open>getElementsByName\<close> into the children.
\<close>

fun resultSize :: "XPatherResult \<Rightarrow> nat" where
  "resultSize (VElem el) = size el"
| "resultSize (VBool b) = 0"
| "resultSize (VNum n) = 0"
| "resultSize (VStr s) = 0"

fun evalMeasure where
  "evalMeasure (Inl (Inl (w, ts, obj, from, to, isRecursive, position, lastN, isFilterContext, filterSource))) =
     (2 * nat (to - from + 1), 0 :: nat)"
| "evalMeasure (Inl (Inr (w, ts, source, from, to, position, lastN, isFilterContext))) =
     (2 * nat (to - from - 2) + 1, 0)"
| "evalMeasure (Inr (Inl (w, ts, source, from, to))) =
     (2 * nat (to - from + 1) + 1, 0)"
| "evalMeasure (Inr (Inr (w, ts, source, from, to, isRecursive, isFilterContext))) =
     (2 * nat (to - from) + 1, sum_list (map resultSize source))"

lemma findClosingIndex_pos:
  "0 \<le> from \<Longrightarrow> 0 < findClosingIndex ts from to \<Longrightarrow>
   from < findClosingIndex ts from to \<and> findClosingIndex ts from to \<le> to"
  using findClosingIndex_bounds[of ts "from" to] by auto

lemma findClosingIndex_gt:
  "0 \<le> from \<Longrightarrow> from < findClosingIndex ts from to \<Longrightarrow> findClosingIndex ts from to \<le> to"
  using findClosingIndex_bounds[of ts "from" to] by auto

lemma isFunctionCall_closing:
  "isFunctionCall ts from to \<Longrightarrow> from + 1 < findClosingIndex ts (from + 1) to"
  by (auto simp: isFunctionCall_def isIdentifier_def Let_def split: option.splits if_splits)

lemma size_childNodes: "c \<in> set (childNodes el) \<Longrightarrow> size c < size el"
  by (cases el) (auto simp: less_Suc_eq_le size_list_estimation')

lemma size_getChildTagList: "c \<in> set (getChildTagList el) \<Longrightarrow> size c < size el"
  by (simp add: getChildTagList_def size_childNodes)

lemma resultSize_le_sum: "v \<in> set vs \<Longrightarrow> resultSize v \<le> sum_list (map resultSize vs)"
  by (induction vs) auto

lemma child_size_lt:
  "VElem el \<in> set source \<Longrightarrow> c \<in> set (getChildTagList el) \<Longrightarrow>
   size c < sum_list (map resultSize source)"
  using resultSize_le_sum[of "VElem el" source] size_getChildTagList[of c el] by simp

definition numOfInt :: "int \<Rightarrow> XPatherResult" where
  "numOfInt n = VNum (Num (of_int n))"

text \<open>
  The four methods of \<open>XPather\<close> that call each other. \<open>w\<close> is the runtime, \<open>ts\<close> the
  token array of the instance. An argument that can be \<open>undefined\<close> (\<open>obj\<close>,
  \<open>filterSource\<close>) is an option; \<open>lastN\<close> is the parameter \<open>last\<close>. A thrown exception is
  the result \<open>Inl\<close>, and a \<open>forEach\<close> or \<open>for\<close> loop is a \<open>foldE\<close> over its list, whose
  state is what the loop updates (\<open>result\<close>; \<open>index\<close> and \<open>resultSet\<close>). Reading
  \<open>this.tokenArray[from].trim()\<close> outside the array is a \<open>TypeError\<close>.
\<close>

function
  evaluateAgainst ::
    "runtime \<Rightarrow> string list \<Rightarrow> XPatherResult list option \<Rightarrow> int \<Rightarrow> int \<Rightarrow> bool \<Rightarrow> int \<Rightarrow> int \<Rightarrow> bool \<Rightarrow>
     XPatherResult list option \<Rightarrow> error + XPatherResult list"
and evaluateFunction ::
    "runtime \<Rightarrow> string list \<Rightarrow> XPatherResult list \<Rightarrow> int \<Rightarrow> int \<Rightarrow> int \<Rightarrow> int \<Rightarrow> bool \<Rightarrow>
     error + XPatherResult list"
and filterByCondition ::
    "runtime \<Rightarrow> string list \<Rightarrow> XPatherResult list \<Rightarrow> int \<Rightarrow> int \<Rightarrow> error + XPatherResult list"
and getElementsByName ::
    "runtime \<Rightarrow> string list \<Rightarrow> XPatherResult list \<Rightarrow> int \<Rightarrow> int \<Rightarrow> bool \<Rightarrow> bool \<Rightarrow>
     error + XPatherResult list"
where
  "evaluateAgainst w ts obj from to isRecursive position lastN isFilterContext filterSource =
     (if from \<ge> 0 \<and> to < int (length ts) \<and> from \<le> to then
        if trim (ts ! nat from) = [] then
          evaluateAgainst w ts obj (from + 1) to isRecursive position lastN isFilterContext filterSource
        else if isToken ts ''('' from then
          (let closingBracket = findClosingIndex ts from to
           in if closingBracket > 0 then
                (case evaluateAgainst w ts obj (from + 1) (closingBracket - 1) False position lastN
                        isFilterContext filterSource of
                   Inl e \<Rightarrow> Inl e
                 | Inr v \<Rightarrow>
                     evaluateAgainst w ts (Some v) (closingBracket + 1) to False position lastN
                       isFilterContext filterSource)
              else throwStandardException)
        else if isToken ts ''['' from then
          (let closingBracket = findClosingIndex ts from to
           in if closingBracket > 0 then
                (case (case obj of
                         Some source \<Rightarrow> filterByCondition w ts source (from + 1) (closingBracket - 1)
                       | None \<Rightarrow> Inr []) of
                   Inl e \<Rightarrow> Inl e
                 | Inr v \<Rightarrow>
                     evaluateAgainst w ts (Some v) (closingBracket + 1) to False position lastN
                       isFilterContext filterSource)
              else throwStandardException)
        else if isToken ts [DQUOTE] from \<or> isToken ts [APOS] from then
          (let closingQuote = findClosingIndex ts from to
           in if closingQuote > from then
                evaluateAgainst w ts (Some [VStr (flatten ts (from + 1) (closingQuote - 1))])
                  (closingQuote + 1) to False position lastN isFilterContext filterSource
              else throwStandardException)
        else if (isToken ts ''='' from \<or> isToken ts ''<'' from \<or> isToken ts ''>'' from)
                \<and> isFilterContext then
          (if isToken ts ''='' (from + 1) \<and> (isToken ts ''<'' from \<or> isToken ts ''>'' from) then
             (case evaluateAgainst w ts filterSource (from + 2) to False position lastN
                     isFilterContext filterSource of
                Inl e \<Rightarrow> Inl e
              | Inr secondObject \<Rightarrow>
                  Inr [VBool (evaluateLogic w obj (Some secondObject)
                                (ts ! nat from @ ts ! nat (from + 1)))])
           else
             (case evaluateAgainst w ts filterSource (from + 1) to False position lastN
                     isFilterContext filterSource of
                Inl e \<Rightarrow> Inl e
              | Inr secondObject \<Rightarrow>
                  Inr [VBool (evaluateLogic w obj (Some secondObject) (ts ! nat from))]))
        else if isToken ts ''/'' from then
          (let goRecursive = isToken ts ''/'' (from + 1);
               from' = (if goRecursive then from + 1 else from)
           in if from' < to then
                (let toIndex0 = findClosingIndex ts from' to - 1;
                     toIndex = (if toIndex0 \<le> from' then to else toIndex0)
                 in case evaluateAgainst w ts obj (from' + 1) toIndex goRecursive 1 lastN
                           isFilterContext filterSource of
                      Inl e \<Rightarrow> Inl e
                    | Inr v \<Rightarrow>
                        evaluateAgainst w ts (Some v) (toIndex + 1) to False 1 lastN
                          isFilterContext filterSource)
              else throwStandardException)
        else if isFunctionCall ts from to then
          (let closingBracketIndex = findClosingIndex ts (from + 1) to
           in case (case obj of
                      Some source \<Rightarrow>
                        evaluateFunction w ts source from to position lastN isFilterContext
                    | None \<Rightarrow> Inr []) of
                Inl e \<Rightarrow> Inl e
              | Inr funcValue \<Rightarrow>
                  evaluateAgainst w ts (Some funcValue) (closingBracketIndex + 1) to False 1 lastN
                    isFilterContext filterSource)
        else if isValidInteger (ts ! nat from) then
          evaluateAgainst w ts (Some [VNum (parseInt (ts ! nat from))]) (from + 1) to False
            position lastN isFilterContext filterSource
        else if isValidDouble (ts ! nat from) then
          evaluateAgainst w ts (Some [VNum (parseFloat (ts ! nat from))]) (from + 1) to False
            position lastN isFilterContext filterSource
        else
          (case obj of
             Some source \<Rightarrow> getElementsByName w ts source from to isRecursive isFilterContext
           | None \<Rightarrow> Inr [])
      else Inr (case obj of Some source \<Rightarrow> source | None \<Rightarrow> []))"
| "evaluateFunction w ts source from to position lastN isFilterContext =
     (case tokenAt ts from of
        None \<Rightarrow> Inl TypeError
      | Some tk \<Rightarrow>
          (let name = trim tk
           in foldE (\<lambda>(index, curr) result.
                if name = ''last'' then
                  Inr (result @ [numOfInt (if isFilterContext then lastN else int (length source))])
                else if name = ''position'' then
                  Inr (result @ [numOfInt (if isFilterContext then position else int index)])
                else if name = ''text'' then
                  (case curr of
                     VElem el \<Rightarrow> Inr (result @ [VStr (textContent el)])
                   | VStr s \<Rightarrow> Inr (result @ [curr])
                   | _ \<Rightarrow> Inr result)
                else if name = ''count'' then
                  (case evaluateAgainst w ts (Some source) (from + 2) (to - 1) False position 0
                          isFilterContext None of
                     Inl e \<Rightarrow> Inl e
                   | Inr argumentEvaluated \<Rightarrow>
                       Inr (result @ [numOfInt (int (length argumentEvaluated))]))
                else if name = ''data'' then
                  (case evaluateAgainst w ts (Some source) (from + 2) (to - 1) False position 0
                          isFilterContext None of
                     Inl e \<Rightarrow> Inl e
                   | Inr argumentEvaluated \<Rightarrow>
                       Inr (result @ filter (\<lambda>elem. isElement elem \<or> isString elem)
                                       argumentEvaluated))
                else Inl (XPatherException (Some (''Unknown function '' @ name @ ''!''))))
              (enumerate 1 source) []))"
| "filterByCondition w ts source from to =
     foldE (\<lambda>(index, curr) result.
        case evaluateAgainst w ts (Some [curr]) from to False (int index) (int (length source))
               True (Some [curr]) of
          Inl e \<Rightarrow> Inl e
        | Inr logicValueList \<Rightarrow>
            (case logicValueList of
               [] \<Rightarrow> Inr result
             | first # rest \<Rightarrow>
                 (case first of
                    VBool b \<Rightarrow> if b then Inr (result @ [curr]) else Inr result
                  | VNum n \<Rightarrow> if n = Num (of_nat index) then Inr (result @ [curr]) else Inr result
                  | _ \<Rightarrow> Inr (result @ [curr]))))
       (enumerate 1 source) []"
| "getElementsByName w ts source from to isRecursive isFilterContext =
     (case tokenAt ts from of
        None \<Rightarrow> Inl TypeError
      | Some tk \<Rightarrow>
          (let name = trim tk
           in if isAtt name then
                (let attName = drop 1 name;
                     nodes =
                       (if isRecursive then
                          map VElem
                            (foldl (\<lambda>nodes next.
                               case next of
                                 VElem el \<Rightarrow> addAll nodes (getAllElementsList el True)
                               | _ \<Rightarrow> nodes) [] source)
                        else source)
                 in foldE (\<lambda>next result.
                      case next of
                        VElem el \<Rightarrow>
                          if attName = ''*'' then
                            (case evaluateAgainst w ts
                                    (Some (map VStr (objectValues (getAttributes el))))
                                    (from + 1) to False 1 1 isFilterContext None of
                               Inl e \<Rightarrow> Inl e
                             | Inr r \<Rightarrow> Inr (result @ r))
                          else
                            (case getAttributeByName el attName of
                               None \<Rightarrow> Inr result
                             | Some attValue \<Rightarrow>
                                 (case evaluateAgainst w ts (Some [VStr attValue]) (from + 1) to
                                         False 1 1 isFilterContext None of
                                    Inl e \<Rightarrow> Inl e
                                  | Inr r \<Rightarrow> Inr (result @ r)))
                      | _ \<Rightarrow> throwStandardException) nodes [])
              else
                (case foldE (\<lambda>next (index, resultSet).
                        case next of
                          VElem el \<Rightarrow>
                            (let isSelf = (name = ''.'');
                                 isParent = (name = ''..'');
                                 isAll = (name = ''*'')
                             in case (if isSelf then Inr [el]
                                      else if isParent then
                                        (case getParent w el of
                                           Inl e \<Rightarrow> Inl e
                                         | Inr None \<Rightarrow> Inr []
                                         | Inr (Some parent) \<Rightarrow> Inr [parent])
                                      else Inr (if isAll then getChildTagList el
                                                else getElementListByName el name False)) of
                                  Inl e \<Rightarrow> Inl e
                                | Inr subnodes \<Rightarrow>
                                    (let nodeSet = addAll [] subnodes
                                     in case evaluateAgainst w ts (Some (map VElem nodeSet))
                                               (from + 1) to False (int (index + 1))
                                               (int (length nodeSet)) isFilterContext None of
                                          Inl e \<Rightarrow> Inl e
                                        | Inr refinedSubnodes \<Rightarrow>
                                            if isRecursive then
                                              (case foldE (\<lambda>childTag rs.
                                                      case getElementsByName w ts [VElem childTag]
                                                             from to isRecursive isFilterContext of
                                                        Inl e \<Rightarrow> Inl e
                                                      | Inr childrenByName \<Rightarrow>
                                                          Inr (addAll
                                                                 (if \<not> isSelf \<and> \<not> isParent \<and> \<not> isAll
                                                                     \<and> VElem childTag \<in> set refinedSubnodes
                                                                  then setAdd rs (VElem childTag)
                                                                  else rs)
                                                                 childrenByName))
                                                     (getChildTagList el)
                                                     (if isSelf \<or> isParent \<or> isAll
                                                      then addAll resultSet refinedSubnodes
                                                      else resultSet) of
                                                 Inl e \<Rightarrow> Inl e
                                               | Inr rs \<Rightarrow> Inr (index + 1, rs))
                                            else Inr (index + 1, addAll resultSet refinedSubnodes)))
                        | _ \<Rightarrow> throwStandardException) source (0 :: nat, []) of
                   Inl e \<Rightarrow> Inl e
                 | Inr (index, resultSet) \<Rightarrow> Inr resultSet)))"
  by pat_completeness auto

termination
proof (relation "inv_image (less_than <*lex*> less_than) evalMeasure", goal_cases)
  case 1
  show ?case by (intro wf_inv_image wf_lex_prod wf_less_than)
next
  case (2 w ts obj "from" to)
  then show ?case by simp
next
  case (3 w ts obj "from" to isRecursive position lastN isFilterContext filterSource x)
  then show ?case using findClosingIndex_pos[of "from" ts to] by (simp; arith)
next
  case (4 w ts obj "from" to isRecursive position lastN isFilterContext filterSource x)
  then show ?case using findClosingIndex_pos[of "from" ts to] by (simp; arith)
next
  case (5 w ts obj "from" to isRecursive position lastN isFilterContext filterSource x)
  then show ?case using findClosingIndex_pos[of "from" ts to] by (simp; arith)
next
  case (6 w ts obj "from" to isRecursive position lastN isFilterContext filterSource x)
  then show ?case using findClosingIndex_pos[of "from" ts to] by (simp; arith)
next
  case (7 w ts obj "from" to isRecursive position lastN isFilterContext filterSource x)
  then show ?case using findClosingIndex_gt[of "from" ts to] by (simp; arith)
next
  case (8 w ts obj "from" to)
  then show ?case by simp
next
  case (9 w ts obj "from" to)
  then show ?case by simp
next
  case (10 w ts obj "from" to isRecursive position lastN isFilterContext filterSource x xa xb xc)
  then show ?case using findClosingIndex_bounds[of ts xa to] by (simp split: if_splits; arith)
next
  case (11 w ts obj "from" to isRecursive position lastN isFilterContext filterSource x xa xb xc)
  then show ?case using findClosingIndex_bounds[of ts xa to] by (simp split: if_splits; arith)
next
  case (12 w ts obj "from" to)
  then show ?case by (simp; arith)
next
  case (13 w ts obj "from" to isRecursive position lastN isFilterContext filterSource x)
  then show ?case using isFunctionCall_closing[of ts "from" to] findClosingIndex_gt[of "from + 1" ts to] by (simp; arith)
next
  case (14 w ts obj "from" to)
  then show ?case by (simp; arith)
next
  case (15 w ts obj "from" to)
  then show ?case by (simp; arith)
next
  case (16 w ts obj "from" to)
  then show ?case by (simp; arith)
next
  case (17 w ts source "from" to)
  then show ?case by (simp; arith)
next
  case (18 w ts source "from" to)
  then show ?case by (simp; arith)
next
  case (19 w ts source "from" to)
  then show ?case by (simp; arith)
next
  case (20 w ts source "from" to)
  then show ?case by (simp; arith)
next
  case (21 w ts source "from" to)
  then show ?case by (simp; arith)
next
  case (22 w ts source "from" to)
  then show ?case by (simp; arith)
next
  case (23 w ts source "from" to isRecursive isFilterContext tk name nx st index resultSet el)
  then show ?case
    by (auto intro: child_size_lt)
qed

declare evaluateAgainst.simps [simp del] evaluateFunction.simps [simp del]
  filterByCondition.simps [simp del] getElementsByName.simps [simp del]

text \<open>The public entry: \<open>evaluateXPath\<close> builds an \<open>XPather\<close> and runs it on the node.\<close>

definition evaluateAgainstNode :: "runtime \<Rightarrow> string list \<Rightarrow> node option \<Rightarrow> error + XPatherResult list" where
  "evaluateAgainstNode w tokenArray n =
     (case n of
        None \<Rightarrow>
          Inl (XPatherException (Some ''Cannot evaluate XPath expression against null value!''))
      | Some el \<Rightarrow>
          evaluateAgainst w tokenArray (Some [VElem el]) 0 (int (length tokenArray) - 1)
            False 1 0 False None)"

definition evaluateXPath :: "runtime \<Rightarrow> node option \<Rightarrow> string \<Rightarrow> error + XPatherResult list" where
  "evaluateXPath w el xPathExpression = evaluateAgainstNode w (tokenize xPathExpression) el"

section \<open>Reference definitions and concrete inputs\<close>

text \<open>
  A token as the tokenizer should produce it: not empty, and either one delimiter
  character or a run of characters without a delimiter.
\<close>

definition wellFormedToken :: "string \<Rightarrow> bool" where
  "wellFormedToken t =
     (t \<noteq> [] \<and> ((\<exists>c. t = [c] \<and> isDelimiter c) \<or> list_all (\<lambda>c. \<not> isDelimiter c) t))"

text \<open>
  The comparison the specification asks for: lexicographic, by code unit.
\<close>

fun codeUnitCompare :: "string \<Rightarrow> string \<Rightarrow> int" where
  "codeUnitCompare [] [] = 0"
| "codeUnitCompare [] (y # ys) = - 1"
| "codeUnitCompare (x # xs) [] = 1"
| "codeUnitCompare (x # xs) (y # ys) =
     (if (of_char x :: nat) < of_char y then - 1
      else if (of_char y :: nat) < of_char x then 1
      else codeUnitCompare xs ys)"

text \<open>
  The double literal as the specification words it: an optional leading sign or space,
  then digits and at most one decimal point, with at least one digit.
\<close>

definition doubleLiteralSpec :: "string \<Rightarrow> bool" where
  "doubleLiteralSpec s =
     (let body = (case s of
                    [] \<Rightarrow> []
                  | c # r \<Rightarrow> if c = CP \<or> c = CM \<or> c = CS then r else s)
      in list_all (\<lambda>c. isDigit c \<or> c = CD) body
         \<and> length (filter isDigit body) \<ge> 1
         \<and> length (filter (\<lambda>c. c = CD) body) \<le> 1)"

text \<open>
  Two runtimes for concrete inputs: one whose collation is the code unit order, one whose
  collation compares letters without regard to case first, as the collations of
  \<open>localeCompare\<close> do (\<open>'a'.localeCompare('B')\<close> is negative).
\<close>

text \<open>
  The conversion of a number to a string, for the concrete runtimes: exact on integers;
  the digits of a fraction are not modelled (no concrete input below converts one).
\<close>

definition integerToString :: "jsnumber \<Rightarrow> string" where
  "integerToString n =
     (case n of
        NaN \<Rightarrow> ''NaN''
      | Num q \<Rightarrow>
          (if q < 0 then ''-'' @ natToString (nat (- \<lfloor>q\<rfloor>)) else natToString (nat \<lfloor>q\<rfloor>)))"

definition codeUnitRuntime :: "node \<Rightarrow> runtime" where
  "codeUnitRuntime doc =
     \<lparr> localeCompare = codeUnitCompare, numberToString = integerToString, topNode = doc \<rparr>"

definition collatingRuntime :: "node \<Rightarrow> runtime" where
  "collatingRuntime doc =
     \<lparr> localeCompare = (\<lambda>a b. codeUnitCompare (toLowerCase a) (toLowerCase b)),
       numberToString = integerToString, topNode = doc \<rparr>"

text \<open>
  Scenario 7. \<open>xpath()\<close> cleans the markup \<open><div><span>Foo</span><div>Bar</div></div>\<close>
  as an HTML document and evaluates against the document element of the result: the
  \<open>html\<close> element, with an empty \<open>head\<close> and a \<open>body\<close> that holds the outer \<open>div\<close>.
\<close>

definition innerDiv :: node where
  "innerDiv = Element 6 ''div'' [] [Text 7 ''Bar'']"

definition fooSpan :: node where
  "fooSpan = Element 4 ''span'' [] [Text 5 ''Foo'']"

definition outerDiv :: node where
  "outerDiv = Element 3 ''div'' [] [fooSpan, innerDiv]"

definition htmlElement :: node where
  "htmlElement = Element 1 ''html'' [] [Element 2 ''head'' [] [], Element 8 ''body'' [] [outerDiv]]"

definition scenarioRuntime :: runtime where
  "scenarioRuntime = codeUnitRuntime (Document 0 [htmlElement])"

text \<open>
  Value-lists without elements, and outcomes of the evaluator that are such a list or an
  \<open>XPatherException\<close>.
\<close>

definition noElements :: "XPatherResult list \<Rightarrow> bool" where
  "noElements vs = list_all (\<lambda>v. \<not> isElement v) vs"

definition noElementsOpt :: "XPatherResult list option \<Rightarrow> bool" where
  "noElementsOpt obj = (case obj of None \<Rightarrow> True | Some vs \<Rightarrow> noElements vs)"

definition isXPatherException :: "error \<Rightarrow> bool" where
  "isXPatherException e = (case e of XPatherException m \<Rightarrow> True | _ \<Rightarrow> False)"

definition plainOutcome :: "error + XPatherResult list \<Rightarrow> bool" where
  "plainOutcome res = (case res of Inl e \<Rightarrow> isXPatherException e | Inr r \<Rightarrow> noElements r)"

text \<open>
  The outcome of the predicate range on the value at a 1-based index of the source: the
  range evaluated against the singleton, with the index as position, the length of the
  source as last, in filter context, with the singleton as filter source.
\<close>

definition predicateOutcome ::
  "runtime \<Rightarrow> string list \<Rightarrow> XPatherResult list \<Rightarrow> int \<Rightarrow> int \<Rightarrow> nat \<times> XPatherResult \<Rightarrow>
   error + XPatherResult list" where
  "predicateOutcome w ts source from to p =
     evaluateAgainst w ts (Some [snd p]) from to False (int (fst p)) (int (length source)) True
       (Some [snd p])"

definition isBoolean :: "XPatherResult \<Rightarrow> bool" where
  "isBoolean v = (case v of VBool b \<Rightarrow> True | _ \<Rightarrow> False)"

definition isNumber :: "XPatherResult \<Rightarrow> bool" where
  "isNumber v = (case v of VNum n \<Rightarrow> True | _ \<Rightarrow> False)"

text \<open>
  The value at index \<open>i\<close> is kept when the list returned for it is not empty and its
  first element is the boolean true, or a number equal to \<open>i\<close>, or neither a boolean
  nor a number.
\<close>

definition predicateKeeps :: "nat \<Rightarrow> XPatherResult list \<Rightarrow> bool" where
  "predicateKeeps i r =
     (r \<noteq> [] \<and>
      (hd r = VBool True \<or> hd r = VNum (Num (of_nat i)) \<or> (\<not> isBoolean (hd r) \<and> \<not> isNumber (hd r))))"

text \<open>The first failure in a list of outcomes, if there is one.\<close>

fun firstFailure :: "(error + 'a) list \<Rightarrow> error option" where
  "firstFailure [] = None"
| "firstFailure (Inl e # rs) = Some e"
| "firstFailure (Inr r # rs) = firstFailure rs"

section \<open>Evaluation of concrete inputs\<close>

text \<open>
  Concrete inputs are evaluated by rewriting with the equations of the definitions; the
  body of a loop is only rewritten once the loop meets a list element.
\<close>

lemma foldE_weak_cong: "xs = ys \<Longrightarrow> a = b \<Longrightarrow> foldE f xs a = foldE f ys b"
  by simp

lemmas eval_defs = tokenize_def isDelimiter_def DQUOTE_def APOS_def evaluateAgainstNode_def evaluateXPath_def
  isToken_def trim_def isWhiteSpace_def findClosingIndex_def tokenAt_def quoteLoop.simps bracketLoop.simps
  scanStep_def scanClosed_def isFunctionCall_def isIdentifier_def isValidInteger_def isValidDouble_def
  C0_def C9_def CD_def CP_def CM_def CS_def charLess_def charLessEq_def isAtt_def
  getChildTagList_def getElementListByName_def toLowerCase_def toLowerChar_def setAdd_def addAll_def
  throwStandardException_def Let_def flatten_def jsSlice_def getAllElementsList_def
  getAttributeByName_def getAttributes_def objectValues_def isElement_def isString_def
  evaluateLogic_def toText_def numEq_def numLess_def numLessEq_def getParent_def numOfInt_def

lemmas eval_rec = evaluateAgainst.simps getElementsByName.simps filterByCondition.simps
  evaluateFunction.simps

lemmas scenario_defs = scenarioRuntime_def codeUnitRuntime_def htmlElement_def outerDiv_def
  fooSpan_def innerDiv_def

section \<open>The tokenizer keeps every character\<close>

lemma concat_splitDelimiters: "concat (splitDelimiters cur s) = rev cur @ s"
  by (induction s arbitrary: cur) auto

lemma concat_filter_nonempty: "concat (filter (\<lambda>t. t \<noteq> []) xs) = concat xs"
  by (induction xs) auto

lemma splitDelimiters_fragments:
  "list_all (\<lambda>c. \<not> isDelimiter c) cur \<Longrightarrow>
   list_all (\<lambda>t. (\<exists>c. t = [c] \<and> isDelimiter c) \<or> list_all (\<lambda>c. \<not> isDelimiter c) t)
     (splitDelimiters cur s)"
proof (induction s arbitrary: cur)
  case Nil
  then show ?case by (simp add: list_all_iff)
next
  case (Cons a s)
  show ?case
  proof (cases "isDelimiter a")
    case True
    have "list_all (\<lambda>c. \<not> isDelimiter c) (rev cur)" using Cons.prems by (simp add: list_all_iff)
    then show ?thesis using True Cons.IH[of "[]"] by simp
  next
    case False
    then have "list_all (\<lambda>c. \<not> isDelimiter c) (a # cur)" using Cons.prems by simp
    then show ?thesis using False Cons.IH[of "a # cur"] by simp
  qed
qed

text \<open>
  C10. For every expression, the tokens of the tokenizer, concatenated in order, are the
  expression: splitting at the delimiters and dropping the empty fragments loses no
  character. Every token is a single delimiter character or a non-empty run of other
  characters.
\<close>

theorem tokenize_concat:
  "concat (tokenize expression) = expression \<and> list_all wellFormedToken (tokenize expression)"
proof
  show "concat (tokenize expression) = expression"
    by (simp add: tokenize_def concat_filter_nonempty concat_splitDelimiters)
  show "list_all wellFormedToken (tokenize expression)"
    using splitDelimiters_fragments[of "[]" expression]
    by (auto simp: tokenize_def wellFormedToken_def list_all_iff)
qed

section \<open>The double literal classifier\<close>

lemma isValidDoubleLoop_all:
  "isValidDoubleLoop cs = list_all (\<lambda>c. isDigit c \<or> c = CD) cs"
  by (induction cs) (auto simp: charLess_def isDigit_def C0_def C9_def Let_def)

text \<open>
  C7 fails as stated: a lone sign and a token with two decimal points are accepted, and
  a token that starts with the decimal point is rejected although the specification's
  wording admits it.
\<close>

theorem isValidDouble_not_spec:
  "isValidDouble ''+'' \<and> \<not> doubleLiteralSpec ''+'' \<and>
   isValidDouble ''1.2.3'' \<and> \<not> doubleLiteralSpec ''1.2.3'' \<and>
   \<not> isValidDouble ''.5'' \<and> doubleLiteralSpec ''.5''"
  by (simp add: isValidDouble_def doubleLiteralSpec_def isDigit_def charLess_def charLessEq_def
      C0_def C9_def CD_def CP_def CM_def CS_def)

text \<open>
  C7, amended. The classifier accepts exactly the non-empty tokens whose first character
  is a sign, a space or a digit and whose other characters are digits or decimal points.
\<close>

theorem isValidDouble_char_classes:
  "isValidDouble v =
     (v \<noteq> [] \<and> (hd v = CP \<or> hd v = CM \<or> hd v = CS \<or> isDigit (hd v)) \<and>
      list_all (\<lambda>c. isDigit c \<or> c = CD) (tl v))"
  by (cases v)
    (auto simp: isValidDouble_def isValidDoubleLoop_all charLessEq_def isDigit_def C0_def C9_def
      Let_def)

theorem isValidDouble_char_classes_witness:
  "isValidDouble '' 12.5'' \<and> isValidDouble ''-'' \<and> \<not> isValidDouble ''1e5''"
  by (simp add: isValidDouble_char_classes isDigit_def CP_def CM_def CS_def CD_def)

section \<open>Comparison with an empty operand\<close>

text \<open>
  C8. Whatever the operator, a comparison with an empty or missing operand list on
  either side is \<open>false\<close>; \<open>evaluateLogic\<close> is a total function into the booleans, so
  nothing is raised.
\<close>

theorem evaluateLogic_empty_operand:
  "first = None \<or> first = Some [] \<or> second = None \<or> second = Some [] \<Longrightarrow>
   evaluateLogic w first second logicOperator = False"
  by (auto simp: evaluateLogic_def split: option.splits list.splits)

theorem evaluateLogic_empty_operand_witness:
  "evaluateLogic (codeUnitRuntime (Text 0 [])) (Some []) (Some [VStr ''a'']) ''='' = False \<and>
   evaluateLogic (codeUnitRuntime (Text 0 [])) (Some [VNum (Num 1)]) (Some []) ''<='' = False \<and>
   evaluateLogic (codeUnitRuntime (Text 0 [])) None (Some [VNum (Num 1)]) ''>'' = False"
  using evaluateLogic_empty_operand[of "Some []" "Some [VStr ''a'']" "codeUnitRuntime (Text 0 [])" "''=''"]
    evaluateLogic_empty_operand[of "Some [VNum (Num 1)]" "Some []" "codeUnitRuntime (Text 0 [])" "''<=''"]
    evaluateLogic_empty_operand[of None "Some [VNum (Num 1)]" "codeUnitRuntime (Text 0 [])" "''>''"]
  by simp

section \<open>Comparison of strings\<close>

text \<open>
  C3. The comparison of two values that are not both numbers is the sign of
  \<open>localeCompare\<close> on their texts. Where the collation puts \<open>a\<close> before \<open>B\<close>, the
  comparison \<open>'a' < 'B'\<close> holds, although \<open>a\<close> follows \<open>B\<close> in the code unit order.
\<close>

theorem evaluateLogic_follows_collation:
  "localeCompare w ''a'' ''B'' < 0 \<Longrightarrow>
   evaluateLogic w (Some [VStr ''a'']) (Some [VStr ''B'']) ''<'' \<and>
   \<not> (codeUnitCompare ''a'' ''B'' < 0)"
  by (simp add: evaluateLogic_def toText_def)

theorem evaluateLogic_follows_collation_witness:
  "localeCompare (collatingRuntime (Text 0 [])) ''a'' ''B'' < 0 \<and>
   evaluateLogic (collatingRuntime (Text 0 [])) (Some [VStr ''a'']) (Some [VStr ''B'']) ''<'' \<and>
   \<not> (codeUnitCompare ''a'' ''B'' < 0)"
proof -
  have h: "localeCompare (collatingRuntime (Text 0 [])) ''a'' ''B'' < 0"
    by (simp add: collatingRuntime_def toLowerCase_def toLowerChar_def)
  show ?thesis using h evaluateLogic_follows_collation[OF h] by simp
qed

section \<open>Scenario 7\<close>

text \<open>
  C2. On the document of scenario 7, \<open>//div[.//span]\<close> and \<open>//div[//span]\<close> both
  evaluate to one result, the outer \<open>div\<close>.
\<close>

theorem scenario7_single_outer_div:
  "evaluateXPath scenarioRuntime (Some htmlElement) ''//div[.//span]'' = Inr [VElem outerDiv] \<and>
   evaluateXPath scenarioRuntime (Some htmlElement) ''//div[//span]'' = Inr [VElem outerDiv]"
  by (simp add: eval_defs scenario_defs eval_rec cong: foldE_weak_cong)

text \<open>
  Against the outer \<open>div\<close> itself both expressions select nothing: \<open>//div\<close> reaches
  the elements below the context node, not the node.
\<close>

lemma scenario7_from_outer_div:
  "evaluateXPath scenarioRuntime (Some outerDiv) ''//div[.//span]'' = Inr [] \<and>
   evaluateXPath scenarioRuntime (Some outerDiv) ''//div[//span]'' = Inr []"
  by (simp add: eval_defs scenario_defs eval_rec cong: foldE_weak_cong)

section \<open>Values that are not elements\<close>

lemma foldE_invariant:
  assumes "I a"
    and "\<And>x s s'. x \<in> set xs \<Longrightarrow> I s \<Longrightarrow> f x s = Inr s' \<Longrightarrow> I s'"
    and "\<And>x s e. x \<in> set xs \<Longrightarrow> I s \<Longrightarrow> f x s = Inl e \<Longrightarrow> E e"
  shows "case foldE f xs a of Inl e \<Rightarrow> E e | Inr r \<Rightarrow> I r"
  using assms
proof (induction xs arbitrary: a)
  case Nil
  then show ?case by simp
next
  case (Cons x xs)
  show ?case
  proof (cases "f x a")
    case (Inl e)
    then show ?thesis using Cons.prems(3)[of x a e] Cons.prems(1) by simp
  next
    case (Inr s')
    have s': "I s'" using Cons.prems(2)[of x a s'] Cons.prems(1) Inr by simp
    have "case foldE f xs s' of Inl e \<Rightarrow> E e | Inr r \<Rightarrow> I r"
    proof (rule Cons.IH[OF s'])
      fix y s t
      assume "y \<in> set xs" "I s" "f y s = Inr t"
      then show "I t" using Cons.prems(2)[of y s t] by simp
    next
      fix y s e
      assume "y \<in> set xs" "I s" "f y s = Inl e"
      then show "E e" using Cons.prems(3)[of y s e] by simp
    qed
    then show ?thesis using Inr by simp
  qed
qed

lemma plainOutcome_Inr [simp]: "plainOutcome (Inr r) = noElements r"
  by (simp add: plainOutcome_def)

lemma plainOutcome_throw [simp]: "plainOutcome throwStandardException"
  by (simp add: plainOutcome_def throwStandardException_def isXPatherException_def)

lemma plainOutcome_bind:
  "plainOutcome m \<Longrightarrow> (\<And>v. m = Inr v \<Longrightarrow> noElements v \<Longrightarrow> plainOutcome (k v)) \<Longrightarrow>
   plainOutcome (case m of Inl e \<Rightarrow> Inl e | Inr v \<Rightarrow> k v)"
  by (cases m) (auto simp: plainOutcome_def)

lemma noElements_simps [simp]:
  "noElements []" "noElements (v # vs) = (\<not> isElement v \<and> noElements vs)"
  "noElements (xs @ ys) = (noElements xs \<and> noElements ys)"
  by (auto simp: noElements_def)

lemma isElement_simps [simp]:
  "isElement (VElem el)" "\<not> isElement (VStr s)" "\<not> isElement (VNum n)" "\<not> isElement (VBool b)"
  by (auto simp: isElement_def)

lemma noElements_map_VStr [simp]: "noElements (map VStr xs)"
  by (induction xs) auto

lemma noElements_filter: "noElements xs \<Longrightarrow> noElements (filter P xs)"
  by (induction xs) auto

lemma plainOutcome_foldE:
  assumes "noElements a"
    and "\<And>x s. x \<in> set xs \<Longrightarrow> noElements s \<Longrightarrow> plainOutcome (f x s)"
  shows "plainOutcome (foldE f xs a)"
proof -
  have "case foldE f xs a of Inl e \<Rightarrow> isXPatherException e | Inr r \<Rightarrow> noElements r"
  proof (rule foldE_invariant[of noElements a xs f isXPatherException])
    show "noElements a" by fact
  next
    fix x s s'
    assume "x \<in> set xs" "noElements s" "f x s = Inr s'"
    then show "noElements s'" using assms(2)[of x s] by (simp add: plainOutcome_def)
  next
    fix x s e
    assume "x \<in> set xs" "noElements s" "f x s = Inl e"
    then show "isXPatherException e" using assms(2)[of x s] by (simp add: plainOutcome_def)
  qed
  then show ?thesis by (simp add: plainOutcome_def)
qed

lemma enumerate_member: "(i, c) \<in> set (enumerate n xs) \<Longrightarrow> c \<in> set xs"
  by (auto simp: in_set_enumerate_eq)

lemma noElements_member: "noElements vs \<Longrightarrow> v \<in> set vs \<Longrightarrow> \<not> isElement v"
  by (simp add: noElements_def list_all_iff)

lemma plainOutcome_Inl [simp]: "plainOutcome (Inl e) = isXPatherException e"
  by (simp add: plainOutcome_def)

lemma isXPatherException_simp [simp]: "isXPatherException (XPatherException m)"
  by (simp add: isXPatherException_def)

lemma foldE_all_fail:
  assumes "\<And>x s. x \<in> set xs \<Longrightarrow> f x s = Inl e"
  shows "foldE f xs a = (if xs = [] then Inr a else Inl e)"
  using assms by (cases xs) auto

lemma evaluator_plain:
  shows "noElementsOpt obj \<longrightarrow> noElementsOpt filterSource \<longrightarrow>
         plainOutcome (evaluateAgainst w ts obj from to isRecursive position lastN isFilterContext filterSource)"
    and "noElements source1 \<longrightarrow> tokenAt ts1 from1 \<noteq> None \<longrightarrow>
         plainOutcome (evaluateFunction w1 ts1 source1 from1 to1 position1 lastN1 isFilterContext1)"
    and "noElements source2 \<longrightarrow> plainOutcome (filterByCondition w2 ts2 source2 from2 to2)"
    and "tokenAt ts3 from3 \<noteq> None \<longrightarrow> (isAtt (trim (ts3 ! nat from3)) \<or> noElements source3) \<longrightarrow>
         plainOutcome (getElementsByName w3 ts3 source3 from3 to3 isRecursive3 isFilterContext3)"
proof (induction w ts obj "from" to isRecursive position lastN isFilterContext filterSource
    and w1 ts1 source1 from1 to1 position1 lastN1 isFilterContext1
    and w2 ts2 source2 from2 to2
    and w3 ts3 source3 from3 to3 isRecursive3 isFilterContext3
    rule: evaluateAgainst_evaluateFunction_filterByCondition_getElementsByName.induct)
  case (1 w ts obj "from" to isRecursive position lastN isFilterContext filterSource)
  let ?r = "0 \<le> from \<and> to < int (length ts) \<and> from \<le> to"
  let ?blank = "trim (ts ! nat from) = []"
  let ?paren = "isToken ts ''('' from"
  let ?brack = "isToken ts ''['' from"
  let ?quote = "isToken ts [DQUOTE] from \<or> isToken ts [APOS] from"
  let ?cmp = "(isToken ts ''='' from \<or> isToken ts ''<'' from \<or> isToken ts ''>'' from) \<and> isFilterContext"
  let ?two = "isToken ts ''='' (from + 1) \<and> (isToken ts ''<'' from \<or> isToken ts ''>'' from)"
  let ?slash = "isToken ts ''/'' from"
  let ?func = "isFunctionCall ts from to"
  let ?int = "isValidInteger (ts ! nat from)"
  let ?dbl = "isValidDouble (ts ! nat from)"
  show ?case
  proof (intro impI)
    assume o: "noElementsOpt obj" and f: "noElementsOpt filterSource"
    consider (out) "\<not> ?r"
      | (blank) "?r" "?blank"
      | (paren) "?r" "\<not> ?blank" "?paren"
      | (brack) "?r" "\<not> ?blank" "\<not> ?paren" "?brack"
      | (quote) "?r" "\<not> ?blank" "\<not> ?paren" "\<not> ?brack" "?quote"
      | (cmp2) "?r" "\<not> ?blank" "\<not> ?paren" "\<not> ?brack" "\<not> ?quote" "?cmp" "?two"
      | (cmp1) "?r" "\<not> ?blank" "\<not> ?paren" "\<not> ?brack" "\<not> ?quote" "?cmp" "\<not> ?two"
      | (slash) "?r" "\<not> ?blank" "\<not> ?paren" "\<not> ?brack" "\<not> ?quote" "\<not> ?cmp" "?slash"
      | (func) "?r" "\<not> ?blank" "\<not> ?paren" "\<not> ?brack" "\<not> ?quote" "\<not> ?cmp" "\<not> ?slash" "?func"
      | (int) "?r" "\<not> ?blank" "\<not> ?paren" "\<not> ?brack" "\<not> ?quote" "\<not> ?cmp" "\<not> ?slash" "\<not> ?func" "?int"
      | (dbl) "?r" "\<not> ?blank" "\<not> ?paren" "\<not> ?brack" "\<not> ?quote" "\<not> ?cmp" "\<not> ?slash" "\<not> ?func"
          "\<not> ?int" "?dbl"
      | (name) "?r" "\<not> ?blank" "\<not> ?paren" "\<not> ?brack" "\<not> ?quote" "\<not> ?cmp" "\<not> ?slash" "\<not> ?func"
          "\<not> ?int" "\<not> ?dbl"
      by blast
    then show "plainOutcome (evaluateAgainst w ts obj from to isRecursive position lastN
        isFilterContext filterSource)"
    proof cases
      case out
      then have "evaluateAgainst w ts obj from to isRecursive position lastN isFilterContext
          filterSource = Inr (case obj of Some source \<Rightarrow> source | None \<Rightarrow> [])"
        by (subst evaluateAgainst.simps) (simp only: if_False)
      then show ?thesis using o
        by (simp add: noElementsOpt_def split: option.splits)
    next
      case blank
      then show ?thesis using "1"(1) o f
        by (subst evaluateAgainst.simps) simp
    next
      case paren
      note ih = "1"(2)[OF paren refl] "1"(3)[OF paren refl]
      show ?thesis using paren o f ih
        by (subst evaluateAgainst.simps)
          (auto simp: Let_def noElementsOpt_def intro!: plainOutcome_bind)
    next
      case brack
      note ih = "1"(4)[OF brack refl] "1"(5)[OF brack refl]
      show ?thesis using brack o f ih
        by (subst evaluateAgainst.simps)
          (auto simp: Let_def noElementsOpt_def intro!: plainOutcome_bind split: option.splits)
    next
      case quote
      note ih = "1"(6)[OF quote refl]
      show ?thesis using quote o f ih
        by (subst evaluateAgainst.simps) (auto simp: Let_def noElementsOpt_def)
    next
      case cmp2
      note ih = "1"(7)[OF cmp2]
      show ?thesis using cmp2 o f ih
        by (subst evaluateAgainst.simps)
          (auto simp: Let_def noElementsOpt_def plainOutcome_def split: sum.splits)
    next
      case cmp1
      note ih = "1"(8)[OF cmp1]
      show ?thesis using cmp1 o f ih
        by (subst evaluateAgainst.simps)
          (auto simp: Let_def noElementsOpt_def plainOutcome_def split: sum.splits)
    next
      case slash
      note ih = "1"(9)[OF slash refl refl _ refl refl] "1"(10)[OF slash refl refl _ refl refl]
      show ?thesis using slash o f ih
        by (subst evaluateAgainst.simps)
          (auto simp: Let_def noElementsOpt_def intro!: plainOutcome_bind)
    next
      case func
      have tk: "tokenAt ts from \<noteq> None" using func(1) by (simp add: tokenAt_def)
      note ih = "1"(11)[OF func refl] "1"(12)[OF func refl]
      show ?thesis using func o f ih tk
        by (subst evaluateAgainst.simps)
          (auto simp: Let_def noElementsOpt_def intro!: plainOutcome_bind split: option.splits)
    next
      case int
      note ih = "1"(13)[OF int]
      show ?thesis using int o f ih
        by (subst evaluateAgainst.simps) (auto simp: Let_def noElementsOpt_def)
    next
      case dbl
      note ih = "1"(14)[OF dbl]
      show ?thesis using dbl o f ih
        by (subst evaluateAgainst.simps) (auto simp: Let_def noElementsOpt_def)
    next
      case name
      have tk: "tokenAt ts from \<noteq> None" using name(1) by (simp add: tokenAt_def)
      note ih = "1"(15)[OF name]
      show ?thesis using name o f ih tk
        by (subst evaluateAgainst.simps)
          (auto simp: Let_def noElementsOpt_def split: option.splits)
    qed
  qed
next
  case (2 w ts source "from" to position lastN isFilterContext)
  show ?case
  proof (intro impI)
    assume src: "noElements source" and "tokenAt ts from \<noteq> None"
    then obtain tk where tk: "tokenAt ts from = Some tk" by auto
    show "plainOutcome (evaluateFunction w ts source from to position lastN isFilterContext)"
      apply (subst evaluateFunction.simps)
      apply (simp only: tk option.case Let_def)
      apply (rule plainOutcome_foldE)
       apply simp
      subgoal for x s
        using "2"(1)[OF tk refl, of x "fst x" "snd x"] "2"(2)[OF tk refl, of x "fst x" "snd x"]
          src noElements_member[OF src enumerate_member[of "fst x" "snd x" 1 source]]
        by (cases x)
          (simp add: plainOutcome_def noElementsOpt_def numOfInt_def noElements_filter
            split: XPatherResult.splits sum.splits; auto simp: noElements_filter)
      done
  qed
next
  case (3 w ts source "from" to)
  show ?case
  proof (intro impI)
    assume src: "noElements source"
    show "plainOutcome (filterByCondition w ts source from to)"
      apply (subst filterByCondition.simps)
      apply (rule plainOutcome_foldE)
       apply simp
      subgoal for x s
        using "3"(1)[of x "fst x" "snd x"]
          noElements_member[OF src enumerate_member[of "fst x" "snd x" 1 source]]
        by (cases x)
          (auto simp: noElementsOpt_def intro!: plainOutcome_bind
            split: XPatherResult.splits list.splits)
      done
  qed
next
  case (4 w ts source "from" to isRecursive isFilterContext)
  show ?case
  proof (intro impI)
    assume "tokenAt ts from \<noteq> None"
      and hyp: "isAtt (trim (ts ! nat from)) \<or> noElements source"
    then obtain tk where tk: "tokenAt ts from = Some tk" by auto
    then have tk': "ts ! nat from = tk" by (auto simp: tokenAt_def split: if_splits)
    show "plainOutcome (getElementsByName w ts source from to isRecursive isFilterContext)"
    proof (cases "isAtt (trim tk)")
      case True
      show ?thesis
        apply (subst getElementsByName.simps)
        apply (simp only: tk option.case Let_def True if_True)
        apply (rule plainOutcome_foldE)
         apply simp
        subgoal for x s
          using "4"(1)[OF tk refl True refl refl, of x] "4"(2)[OF tk refl True refl refl, of x]
          by (auto simp: noElementsOpt_def intro!: plainOutcome_bind
              split: XPatherResult.splits option.splits)
        done
    next
      case False
      then have src: "noElements source" using hyp tk' by simp
      have fail: "foldE f source a = (if source = [] then Inr a else Inl (XPatherException None))"
        if "\<And>x s. \<not> isElement x \<Longrightarrow> f x s = Inl (XPatherException None)"
        for f and a :: "nat \<times> XPatherResult list"
      proof (rule foldE_all_fail)
        fix x s
        assume "x \<in> set source"
        then show "f x s = Inl (XPatherException None)"
          using that[of x s] noElements_member[OF src] by simp
      qed
      show ?thesis
        apply (subst getElementsByName.simps)
        apply (simp only: tk option.case Let_def False if_False)
        apply (subst fail)
         apply (auto simp: throwStandardException_def split: XPatherResult.splits prod.splits)
        done
    qed
  qed
qed

lemma evaluateAgainst_outside:
  "\<not> (0 \<le> from \<and> to < int (length ts) \<and> from \<le> to) \<Longrightarrow>
   evaluateAgainst w ts obj from to isRecursive position lastN isFilterContext filterSource =
     Inr (case obj of Some source \<Rightarrow> source | None \<Rightarrow> [])"
  by (subst evaluateAgainst.simps) (simp only: if_False)

lemma foldE_fails_at:
  assumes "x \<in> set xs" and "\<And>s. \<exists>e. f x s = Inl e"
  shows "\<exists>e. foldE f xs a = Inl e"
  using assms(1)
proof (induction xs arbitrary: a)
  case Nil
  then show ?case by simp
next
  case (Cons y ys)
  show ?case
  proof (cases "f y a")
    case (Inl e)
    then show ?thesis by simp
  next
    case (Inr a')
    show ?thesis
    proof (cases "x = y")
      case True
      then show ?thesis using assms(2)[of a] Inr by auto
    next
      case False
      then have "x \<in> set ys" using Cons.prems by simp
      then show ?thesis using Cons.IH[of a'] Inr by simp
    qed
  qed
qed

lemma foldl_skip_non_elements:
  "foldl (\<lambda>nodes next. case next of VElem el \<Rightarrow> g nodes el | _ \<Rightarrow> nodes) a source =
   foldl (\<lambda>nodes next. case next of VElem el \<Rightarrow> g nodes el | _ \<Rightarrow> nodes) a (filter isElement source)"
  by (induction source arbitrary: a) (auto simp: isElement_def split: XPatherResult.splits)

section \<open>Unknown functions\<close>

text \<open>
  C4 fails as stated: the name of the function is only looked at inside the loop over the
  input values, so on an empty input an unknown function raises nothing. Here \<open>/nosuch\<close>
  selects no element, and \<open>foo()\<close> is then called on the empty list.
\<close>

theorem unknown_function_on_empty_input:
  "evaluateXPath scenarioRuntime (Some htmlElement) ''/nosuch/foo()'' = Inr [] \<and>
   evaluateFunction scenarioRuntime [''foo'', ''('', '')''] [] 0 2 1 0 False = Inr []"
  by (simp add: eval_defs scenario_defs eval_rec cong: foldE_weak_cong)

text \<open>
  C4, amended. A call of a function whose name is not one of \<open>last\<close>, \<open>position\<close>,
  \<open>text\<close>, \<open>count\<close>, \<open>data\<close> raises the exception \<open>Unknown function ...!\<close> for every
  non-empty input value-list, and returns the empty list for the empty one.
\<close>

theorem unknown_function_raises:
  assumes "tokenAt ts from = Some tk"
    and "trim tk \<notin> {''last'', ''position'', ''text'', ''count'', ''data''}"
  shows "evaluateFunction w ts source from to position lastN isFilterContext =
     (if source = [] then Inr []
      else Inl (XPatherException (Some (''Unknown function '' @ trim tk @ ''!''))))"
proof (cases source)
  case Nil
  then show ?thesis using assms(1)
    by (subst evaluateFunction.simps) (simp add: Let_def)
next
  case (Cons v vs)
  then show ?thesis using assms
    by (subst evaluateFunction.simps) (simp add: Let_def)
qed

theorem unknown_function_raises_witness:
  "evaluateFunction scenarioRuntime [''foo'', ''('', '')''] [VStr ''a''] 0 2 1 0 False =
     Inl (XPatherException (Some ''Unknown function foo!'')) \<and>
   evaluateFunction scenarioRuntime [''foo'', ''('', '')''] [] 0 2 1 0 False = Inr []"
  using unknown_function_raises[of "[''foo'', ''('', '')'']" 0 "''foo''" scenarioRuntime "[VStr ''a'']" 2 1 0 False]
    unknown_function_raises[of "[''foo'', ''('', '')'']" 0 "''foo''" scenarioRuntime "[]" 2 1 0 False]
  by (simp add: tokenAt_def trim_def isWhiteSpace_def)

section \<open>The attribute axis\<close>

text \<open>
  C5 fails as stated: with \<open>isRecursive\<close> the attribute step only visits the descendants
  of the elements of its input and skips every other value. Here the step \<open>//@id\<close> is
  applied to a string.
\<close>

theorem recursive_attribute_axis_skips_strings:
  "getElementsByName scenarioRuntime [''@id''] [VStr ''a''] 0 0 True False = Inr [] \<and>
   evaluateXPath scenarioRuntime (Some htmlElement) ([DQUOTE] @ ''a'' @ [DQUOTE] @ ''//@id'') = Inr []"
  by (simp add: eval_defs scenario_defs eval_rec cong: foldE_weak_cong)

text \<open>
  C5, amended. An attribute step that is not recursive raises an \<open>XPatherException\<close>
  whenever its input holds a value that is not an element. A recursive attribute step
  ignores the values of its input that are not elements: it returns what it returns on
  the elements alone.
\<close>

theorem attribute_axis_non_element:
  assumes "tokenAt ts from = Some tk" and "isAtt (trim tk)"
  shows "((\<exists>v \<in> set source. \<not> isElement v) \<longrightarrow>
          (\<exists>m. getElementsByName w ts source from to False isFilterContext = Inl (XPatherException m))) \<and>
         getElementsByName w ts source from to True isFilterContext =
         getElementsByName w ts (filter isElement source) from to True isFilterContext"
proof (intro conjI impI)
  have tk': "ts ! nat from = tk" using assms(1) by (auto simp: tokenAt_def split: if_splits)
  assume "\<exists>v \<in> set source. \<not> isElement v"
  then obtain v where v: "v \<in> set source" "\<not> isElement v" by blast
  have plain: "plainOutcome (getElementsByName w ts source from to False isFilterContext)"
    using evaluator_plain(4)[of ts "from" source w to False isFilterContext] assms tk' by simp
  have "\<exists>e. getElementsByName w ts source from to False isFilterContext = Inl e"
    apply (subst getElementsByName.simps)
    apply (simp only: assms option.case Let_def if_True if_False)
    apply (rule foldE_fails_at[OF v(1)])
    using v(2) apply (auto simp: throwStandardException_def isElement_def split: XPatherResult.splits)
    done
  then obtain e where e: "getElementsByName w ts source from to False isFilterContext = Inl e"
    by blast
  then have "isXPatherException e" using plain by simp
  then show "\<exists>m. getElementsByName w ts source from to False isFilterContext = Inl (XPatherException m)"
    using e by (cases e) (auto simp: isXPatherException_def)
next
  show "getElementsByName w ts source from to True isFilterContext =
         getElementsByName w ts (filter isElement source) from to True isFilterContext"
    apply (subst (1 2) getElementsByName.simps)
    apply (simp only: assms option.case Let_def if_True)
    apply (subst foldl_skip_non_elements)
    apply (rule refl)
    done
qed

theorem attribute_axis_non_element_witness:
  "(\<exists>m. getElementsByName scenarioRuntime [''@id''] [VElem outerDiv, VStr ''a''] 0 0 False False
        = Inl (XPatherException m)) \<and>
   getElementsByName scenarioRuntime [''@id''] [VElem outerDiv, VStr ''a''] 0 0 True False =
   getElementsByName scenarioRuntime [''@id''] [VElem outerDiv] 0 0 True False"
  using attribute_axis_non_element[of "[''@id'']" 0 "''@id''" "[VElem outerDiv, VStr ''a'']"
      scenarioRuntime 0 False]
  by (simp add: tokenAt_def trim_def isWhiteSpace_def isAtt_def isElement_def)

text \<open>
  C6 fails as stated: inside a predicate the attribute step \<open>@id\<close> of \<open>[@id='x']\<close>
  returns the boolean of the comparison that follows it, and in \<open>[@id/position()]\<close> it
  returns a number.
\<close>

theorem attribute_axis_boolean:
  "getElementsByName scenarioRuntime [''@id'', ''='', [APOS], ''x'', [APOS]]
     [VElem (Element 1 ''a'' [(''id'', ''x'')] [])] 0 4 False True = Inr [VBool True] \<and>
   getElementsByName scenarioRuntime [''@id'', ''/'', ''position'', ''('', '')'']
     [VElem (Element 1 ''a'' [(''id'', ''x'')] [])] 0 4 False True = Inr [VNum (Num 1)]"
  by (simp add: eval_defs scenario_defs eval_rec cong: foldE_weak_cong)

text \<open>
  C6, amended. For every attribute-axis step and every input, no value of the returned
  list is an element; and when no token follows the attribute name in the range of the
  step, every value of the returned list is a string.
\<close>

theorem attribute_axis_no_elements:
  assumes "tokenAt ts from = Some tk" and "isAtt (trim tk)"
    and "getElementsByName w ts source from to isRecursive isFilterContext = Inr r"
  shows "list_all (\<lambda>v. \<not> isElement v) r \<and> (to \<le> from \<longrightarrow> list_all isString r)"
proof (intro conjI impI)
  have tk': "ts ! nat from = tk" using assms(1) by (auto simp: tokenAt_def split: if_splits)
  have "plainOutcome (getElementsByName w ts source from to isRecursive isFilterContext)"
    using evaluator_plain(4)[of ts "from" source w to isRecursive isFilterContext] assms tk'
    by simp
  then show "list_all (\<lambda>v. \<not> isElement v) r"
    using assms(3) by (simp add: noElements_def)
next
  assume le: "to \<le> from"
  have out: "\<And>obj p l. evaluateAgainst w ts obj (from + 1) to False p l isFilterContext None =
      Inr (case obj of Some s \<Rightarrow> s | None \<Rightarrow> [])"
    using le by (intro evaluateAgainst_outside) simp
  have "case getElementsByName w ts source from to isRecursive isFilterContext of
          Inl e \<Rightarrow> True | Inr r \<Rightarrow> list_all isString r"
    apply (subst getElementsByName.simps)
    apply (simp only: assms(1,2) option.case Let_def if_True out sum.case)
    apply (rule foldE_invariant[where I = "list_all isString" and E = "\<lambda>e. True"])
      apply simp
     apply (auto simp: isString_def throwStandardException_def list_all_iff
        split: XPatherResult.splits option.splits if_splits)
    done
  then show "list_all isString r" using assms(3) by simp
qed

theorem attribute_axis_no_elements_witness:
  "getElementsByName scenarioRuntime [''@id'']
     [VElem (Element 1 ''a'' [(''id'', ''x'')] [])] 0 0 False False = Inr [VStr ''x''] \<and>
   list_all (\<lambda>v. \<not> isElement v) [VStr ''x''] \<and> list_all isString [VStr ''x'']"
proof -
  have r: "getElementsByName scenarioRuntime [''@id'']
     [VElem (Element 1 ''a'' [(''id'', ''x'')] [])] 0 0 False False = Inr [VStr ''x'']"
    by (simp add: eval_defs scenario_defs eval_rec cong: foldE_weak_cong)
  have tk: "tokenAt [''@id''] 0 = Some ''@id''" by (simp add: tokenAt_def)
  have att: "isAtt (trim ''@id'')" by (simp add: isAtt_def trim_def isWhiteSpace_def)
  show ?thesis using r attribute_axis_no_elements[OF tk att r] by simp
qed

section \<open>The filter subroutine\<close>

lemma foldE_filter:
  assumes "\<And>x acc. f x acc =
     (case g x of Inl e \<Rightarrow> Inl e | Inr r \<Rightarrow> Inr (if k x r then acc @ [h x] else acc))"
  shows "foldE f xs acc =
     (case firstFailure (map g xs) of
        Some e \<Rightarrow> Inl e
      | None \<Rightarrow> Inr (acc @ map h (filter (\<lambda>x. k x (projr (g x))) xs)))"
proof (induction xs arbitrary: acc)
  case Nil
  then show ?case by simp
next
  case (Cons x xs)
  show ?case
  proof (cases "g x")
    case (Inl e)
    then show ?thesis by (simp add: assms)
  next
    case (Inr r)
    then show ?thesis using Cons.IH by (simp add: assms split: option.splits)
  qed
qed

text \<open>
  C1. The filter subroutine evaluates the predicate range once for each value of the
  source, in order, as \<open>predicateOutcome\<close> says; it fails with the first failure of such
  an evaluation, and otherwise returns, in order, the values that \<open>predicateKeeps\<close>
  keeps (an empty outcome drops the value).
\<close>

theorem filterByCondition_keeps:
  "filterByCondition w ts source from to =
     (case firstFailure (map (predicateOutcome w ts source from to) (enumerate 1 source)) of
        Some e \<Rightarrow> Inl e
      | None \<Rightarrow>
          Inr (map snd
                 (filter (\<lambda>p. predicateKeeps (fst p) (projr (predicateOutcome w ts source from to p)))
                    (enumerate 1 source))))"
proof -
  have step: "(\<lambda>(index, curr) result.
        (case evaluateAgainst w ts (Some [curr]) from to False (int index) (int (length source))
               True (Some [curr]) of
          Inl e \<Rightarrow> Inl e
        | Inr logicValueList \<Rightarrow>
            (case logicValueList of
               [] \<Rightarrow> Inr result
             | first # rest \<Rightarrow>
                 (case first of
                    VBool b \<Rightarrow> if b then Inr (result @ [curr]) else Inr result
                  | VNum n \<Rightarrow> if n = Num (of_nat index) then Inr (result @ [curr]) else Inr result
                  | _ \<Rightarrow> Inr (result @ [curr]))))) x acc =
     (case predicateOutcome w ts source from to x of
        Inl e \<Rightarrow> Inl e
      | Inr r \<Rightarrow> Inr (if predicateKeeps (fst x) r then acc @ [snd x] else acc))" for x acc
    by (cases x)
      (auto simp: predicateOutcome_def predicateKeeps_def isBoolean_def isNumber_def
        split: sum.splits list.splits XPatherResult.splits)
  show ?thesis
    apply (subst filterByCondition.simps)
    apply (subst foldE_filter[where g = "predicateOutcome w ts source from to"
          and k = "\<lambda>p r. predicateKeeps (fst p) r" and h = snd])
     apply (rule step)
    apply (simp split: option.splits)
    done
qed

theorem filterByCondition_keeps_witness:
  "filterByCondition scenarioRuntime [''2''] [VStr ''a'', VStr ''b'', VStr ''c''] 0 0 =
     Inr [VStr ''b'']"
  using filterByCondition_keeps[of scenarioRuntime "[''2'']" "[VStr ''a'', VStr ''b'', VStr ''c'']" 0 0]
  by (simp add: predicateOutcome_def predicateKeeps_def isBoolean_def isNumber_def
      eval_defs eval_rec parseInt_def stripSign_def isDigit_def digitsValue_def enumerate_eq_zip
      cong: foldE_weak_cong)

section \<open>The descendant axis with and without the self step\<close>

lemma lastStep_token:
  assumes "tokenAt ts i = Some tk" and "tokenAt ts' j = Some tk'" and "trim tk = trim tk'"
  shows "getElementsByName w ts source i i r fc = getElementsByName w ts' source j j r fc"
proof (induction "sum_list (map resultSize source)" arbitrary: source r rule: less_induct)
  case less
  have out1: "\<And>obj p l. evaluateAgainst w ts obj (i + 1) i False p l fc None =
      Inr (case obj of Some s \<Rightarrow> s | None \<Rightarrow> [])"
    by (intro evaluateAgainst_outside) simp
  have out2: "\<And>obj p l. evaluateAgainst w ts' obj (j + 1) j False p l fc None =
      Inr (case obj of Some s \<Rightarrow> s | None \<Rightarrow> [])"
    by (intro evaluateAgainst_outside) simp
  have child: "getElementsByName w ts [VElem c] i i r' fc = getElementsByName w ts' [VElem c] j j r' fc"
    if "VElem el \<in> set source" "c \<in> set (getChildTagList el)" for el c r'
    using less[of "[VElem c]" r'] child_size_lt[OF that] by simp
  have inner: "foldE (\<lambda>childTag rs.
        case getElementsByName w ts [VElem childTag] i i r' fc of
          Inl e \<Rightarrow> Inl e | Inr cb \<Rightarrow> K childTag rs cb) (getChildTagList el) init =
      foldE (\<lambda>childTag rs.
        case getElementsByName w ts' [VElem childTag] j j r' fc of
          Inl e \<Rightarrow> Inl e | Inr cb \<Rightarrow> K childTag rs cb) (getChildTagList el) init"
    if "VElem el \<in> set source" for el init r' K
    by (rule foldE_cong[OF refl refl]) (simp add: child[OF that])
  show ?case
    apply (subst getElementsByName.simps)
    apply (subst (2) getElementsByName.simps)
    apply (simp only: assms option.case Let_def out1 out2 sum.case)
    apply (cases "isAtt (trim tk')")
     apply (simp only: if_True)
    apply (simp only: if_False)
    apply (rule arg_cong[where f = "\<lambda>m. case m of Inl e \<Rightarrow> Inl e | Inr (index, resultSet) \<Rightarrow> Inr resultSet"])
    apply (rule foldE_cong[OF refl refl])
    subgoal for x s
      apply (cases x; cases s)
         apply (simp_all add: inner split: sum.splits option.splits)
      done
    done
qed

lemma foldE_Inr_invariant:
  assumes "foldE f xs a = Inr r" and "I a"
    and "\<And>x s s'. x \<in> set xs \<Longrightarrow> I s \<Longrightarrow> f x s = Inr s' \<Longrightarrow> I s'"
  shows "I r"
  using foldE_invariant[of I a xs f "\<lambda>e. True"] assms by simp

lemma distinct_setAdd: "distinct target \<Longrightarrow> distinct (setAdd target v)"
  by (simp add: setAdd_def)

lemma distinct_addAll: "distinct target \<Longrightarrow> distinct (addAll target vs)"
  unfolding addAll_def by (induction vs arbitrary: target) (simp_all add: distinct_setAdd)

lemma addAll_distinct_append: "distinct (target @ vs) \<Longrightarrow> addAll target vs = target @ vs"
  unfolding addAll_def by (induction vs arbitrary: target) (simp_all add: setAdd_def)

lemma childLoop_distinct:
  assumes "foldE (\<lambda>childTag rs. case X childTag of
            Inl e \<Rightarrow> Inl e
          | Inr cb \<Rightarrow> Inr (addAll (if C childTag then setAdd rs (V childTag) else rs) cb))
          cs init = Inr rs'"
    and "distinct init"
  shows "distinct rs'"
  using assms(1)
proof (rule foldE_Inr_invariant)
  show "distinct init" by fact
next
  fix x s s'
  assume "distinct s"
    "(case X x of Inl e \<Rightarrow> Inl e
      | Inr cb \<Rightarrow> Inr (addAll (if C x then setAdd s (V x) else s) cb)) = Inr s'"
  then show "distinct s'"
    by (auto simp: distinct_addAll distinct_setAdd split: sum.splits if_splits)
qed

lemma case_result_set:
  "(case (case m of Inl e \<Rightarrow> Inl e | Inr (index, resultSet) \<Rightarrow> Inr resultSet) of
      Inl e \<Rightarrow> True | Inr res \<Rightarrow> P res) =
   (case m of Inl e \<Rightarrow> True | Inr s \<Rightarrow> P (snd s))"
  by (cases m) auto

lemma elementStep_distinct:
  assumes "tokenAt ts from = Some tk" and "\<not> isAtt (trim tk)"
    and "getElementsByName w ts source from to r fc = Inr res"
  shows "distinct res"
proof -
  have "case getElementsByName w ts source from to r fc of Inl e \<Rightarrow> True | Inr res \<Rightarrow> distinct res"
    apply (subst getElementsByName.simps)
    apply (simp only: assms(1,2) option.case Let_def if_False)
    apply (subst case_result_set)
    apply (rule foldE_invariant[where I = "\<lambda>s. distinct (snd s)" and E = "\<lambda>e. True"])
      apply simp
    subgoal for x s s'
      apply (cases s; cases x)
         apply (auto simp: throwStandardException_def distinct_addAll
          split: sum.splits option.splits if_splits dest!: childLoop_distinct)
      done
    apply simp
    done
  then show ?thesis using assms(3) by simp
qed

lemma letter_not_special:
  assumes "isLetter c"
  shows "c \<noteq> CHR ''/''" "c \<noteq> CHR ''(''" "c \<noteq> CHR '')''" "c \<noteq> CHR ''[''" "c \<noteq> CHR '']''"
    "c \<noteq> CHR ''=''" "c \<noteq> CHR ''<''" "c \<noteq> CHR ''>''" "c \<noteq> DQUOTE" "c \<noteq> APOS"
    "c \<noteq> CHR ''@''" "c \<noteq> CHR ''+''" "c \<noteq> CHR ''-''" "c \<noteq> CHR '' ''" "c \<noteq> CHR ''.''"
    "\<not> isWhiteSpace c" "\<not> isDelimiter c" "\<not> ((48::nat) \<le> of_char c \<and> (of_char c :: nat) \<le> 57)"
  using assms
  by (auto simp: isLetter_def isWhiteSpace_def isDelimiter_def DQUOTE_def APOS_def Let_def)

lemma wordChar_plain:
  assumes "isWordChar d \<or> d = CHR ''-''"
  shows "\<not> isWhiteSpace d" "\<not> isDelimiter d"
  using assms
  by (auto simp: isWordChar_def isLetter_def isDigit_def isWhiteSpace_def isDelimiter_def
      DQUOTE_def APOS_def Let_def)

lemma splitDelimiters_plain:
  "list_all (\<lambda>c. \<not> isDelimiter c) s \<Longrightarrow> splitDelimiters cur s = [rev cur @ s]"
  by (induction s arbitrary: cur) auto

lemma trim_plain:
  assumes "s \<noteq> []" and "\<not> isWhiteSpace (hd s)" and "\<not> isWhiteSpace (last s)"
  shows "trim s = s"
proof -
  have a: "dropWhile isWhiteSpace s = s" using assms(1,2) by (cases s) auto
  have "rev s \<noteq> []" "\<not> isWhiteSpace (hd (rev s))"
    using assms(1,3) by (simp_all add: hd_rev)
  then have b: "dropWhile isWhiteSpace (rev s) = rev s" by (cases "rev s") auto
  show ?thesis by (simp add: trim_def a b)
qed


lemma identifier_facts:
  assumes "identifierRegex n"
  obtains c cs where "n = c # cs" "isLetter c" "trim n = n" "list_all (\<lambda>c. \<not> isDelimiter c) n"
proof -
  obtain c cs where n: "n = c # cs" "isLetter c" "list_all (\<lambda>d. isWordChar d \<or> d = CHR ''-'') cs"
    using assms by (auto simp: identifierRegex_def split: list.splits)
  have plain: "list_all (\<lambda>c. \<not> isDelimiter c) n" "list_all (\<lambda>c. \<not> isWhiteSpace c) n"
    using n wordChar_plain letter_not_special(16,17)[OF n(2)] by (auto simp: list_all_iff)
  have "\<not> isWhiteSpace (hd n)" "\<not> isWhiteSpace (last n)"
    using plain(2) n(1) by (auto simp: list_all_iff)
  then have "trim n = n" using trim_plain[of n] n(1) by simp
  then show ?thesis using that n plain by blast
qed

lemma name_token_step:
  assumes "identifierRegex n" and "tokenAt ts k = Some n" and "int (length ts) = k + 1"
  shows "evaluateAgainst w ts (Some v) k k r p l False None = getElementsByName w ts v k k r False"
proof -
  obtain c cs where n: "n = c # cs" "isLetter c" "trim n = n"
    using identifier_facts[OF assms(1)] by blast
  have k: "0 \<le> k" "k < int (length ts)" "ts ! nat k = n"
    using assms(2) by (auto simp: tokenAt_def split: if_splits)
  note ls = letter_not_special[OF n(2)]
  have tok: "\<not> isToken ts ''('' k" "\<not> isToken ts ''['' k" "\<not> isToken ts [DQUOTE] k"
    "\<not> isToken ts [APOS] k" "\<not> isToken ts ''/'' k" "\<not> isToken ts ''('' (k + 1)"
    using k n(3) n(1) ls assms(3)
    by (auto simp: isToken_def trim_def isWhiteSpace_def DQUOTE_def APOS_def)
  have cls: "\<not> isValidInteger n" "\<not> isValidDouble n" "\<not> isFunctionCall ts k k"
    using n(1) ls tok(6) assms(2)
    by (auto simp: isValidInteger_def isValidDouble_def isFunctionCall_def isIdentifier_def
        charLessEq_def C0_def C9_def CP_def CM_def CS_def Let_def)
  show ?thesis
    apply (subst evaluateAgainst.simps)
    using k tok cls n(3) n(1)
    apply simp
    done
qed


lemma recursive_step_name:
  assumes "identifierRegex n"
  shows "evaluateAgainst w [''/'', ''/'', n] (Some [VElem e]) 0 2 False 1 0 False None =
         getElementsByName w [''/'', ''/'', n] [VElem e] 2 2 True False"
proof -
  obtain c cs where n: "n = c # cs" "isLetter c"
    using identifier_facts[OF assms] by blast
  note ls = letter_not_special[OF n(2)]
  have out: "\<And>v. evaluateAgainst w [''/'', ''/'', n] (Some v) 3 2 False 1 0 False None = Inr v"
    by (subst evaluateAgainst_outside) simp_all
  have step: "\<And>p l. evaluateAgainst w [''/'', ''/'', n] (Some [VElem e]) 2 2 True p l False None =
      getElementsByName w [''/'', ''/'', n] [VElem e] 2 2 True False"
    by (rule name_token_step[OF assms]) (simp_all add: tokenAt_def)
  have closing: "findClosingIndex [''/'', ''/'', n] 1 2 = - 1"
    using n(1) ls by (simp add: eval_defs)
  show ?thesis
    apply (subst evaluateAgainst.simps)
    apply (simp add: closing isToken_def trim_def isWhiteSpace_def DQUOTE_def APOS_def step out
        split: sum.splits)
    done
qed

lemma self_recursive_step_name:
  assumes "identifierRegex n"
  shows "evaluateAgainst w [''.'', ''/'', ''/'', n] (Some [VElem e]) 0 3 False 1 0 False None =
   (case getElementsByName w [''.'', ''/'', ''/'', n] [VElem e] 3 3 True False of
      Inl err \<Rightarrow> Inl err
    | Inr v \<Rightarrow> Inr (addAll [] v))"
proof -
  obtain c cs where n: "n = c # cs" "isLetter c"
    using identifier_facts[OF assms] by blast
  note ls = letter_not_special[OF n(2)]
  have out: "\<And>v p l. evaluateAgainst w [''.'', ''/'', ''/'', n] (Some v) 4 3 False p l False None = Inr v"
    by (subst evaluateAgainst_outside) simp_all
  have step: "\<And>p l. evaluateAgainst w [''.'', ''/'', ''/'', n] (Some [VElem e]) 3 3 True p l False None =
      getElementsByName w [''.'', ''/'', ''/'', n] [VElem e] 3 3 True False"
    by (rule name_token_step[OF assms]) (simp_all add: tokenAt_def)
  have closing: "findClosingIndex [''.'', ''/'', ''/'', n] 2 3 = - 1"
    using n(1) ls by (simp add: eval_defs)
  have inner: "evaluateAgainst w [''.'', ''/'', ''/'', n] (Some [VElem e]) 1 3 False 1 1 False None =
      getElementsByName w [''.'', ''/'', ''/'', n] [VElem e] 3 3 True False"
    apply (subst evaluateAgainst.simps)
    apply (simp add: closing isToken_def trim_def isWhiteSpace_def DQUOTE_def APOS_def step out
        split: sum.splits)
    done
  have dot: "evaluateAgainst w [''.'', ''/'', ''/'', n] (Some [VElem e]) 0 3 False 1 0 False None =
      getElementsByName w [''.'', ''/'', ''/'', n] [VElem e] 0 3 False False"
    by (subst evaluateAgainst.simps) (simp add: eval_defs)
  show ?thesis
    apply (subst dot)
    apply (subst getElementsByName.simps)
    apply (simp add: tokenAt_def trim_def isWhiteSpace_def isAtt_def addAll_def setAdd_def inner
        split: sum.splits)
    done
qed

text \<open>
  C9. For every element name \<open>n\<close> (a letter followed by letters, digits, underscores or
  hyphens), against every node of every tree, \<open>//n\<close> and \<open>.//n\<close> evaluate to the same
  outcome: the same values in the same order, or the same failure.
\<close>

theorem descendant_axis_self_prefix:
  assumes "identifierRegex n"
  shows "evaluateXPath w el (''//'' @ n) = evaluateXPath w el (''.//'' @ n)"
proof (cases el)
  case None
  then show ?thesis by (simp add: evaluateXPath_def evaluateAgainstNode_def)
next
  case (Some e)
  obtain c cs where n: "n = c # cs" "isLetter c" "trim n = n" "list_all (\<lambda>c. \<not> isDelimiter c) n"
    using identifier_facts[OF assms] by blast
  have ne: "n \<noteq> []" using n(1) by simp
  have t1: "tokenize (''//'' @ n) = [''/'', ''/'', n]"
    by (simp add: tokenize_def isDelimiter_def DQUOTE_def APOS_def splitDelimiters_plain[OF n(4)] ne)
  have t2: "tokenize (''.//'' @ n) = [''.'', ''/'', ''/'', n]"
    by (simp add: tokenize_def isDelimiter_def DQUOTE_def APOS_def splitDelimiters_plain[OF n(4)] ne)
  have same: "getElementsByName w [''/'', ''/'', n] [VElem e] 2 2 True False =
      getElementsByName w [''.'', ''/'', ''/'', n] [VElem e] 3 3 True False"
    by (rule lastStep_token[of _ _ n _ _ n]) (simp_all add: tokenAt_def)
  have dist: "addAll [] v = v"
    if "getElementsByName w [''.'', ''/'', ''/'', n] [VElem e] 3 3 True False = Inr v" for v
  proof -
    have na: "\<not> isAtt (trim n)"
      using n(1,3) letter_not_special(11)[OF n(2)] by (simp add: isAtt_def)
    have tk: "tokenAt [''.'', ''/'', ''/'', n] 3 = Some n" by (simp add: tokenAt_def)
    have "distinct v"
      by (rule elementStep_distinct[OF tk na that])
    then show ?thesis using addAll_distinct_append[of "[]" v] by simp
  qed
  show ?thesis
    unfolding evaluateXPath_def evaluateAgainstNode_def t1 t2 Some
    by (simp add: recursive_step_name[OF assms] self_recursive_step_name[OF assms] same dist
        split: sum.splits)
qed

theorem descendant_axis_self_prefix_witness:
  "\<forall>w el. evaluateXPath w el ''//x'' = evaluateXPath w el ''.//x''"
  using descendant_axis_self_prefix[of "''x''"]
  by (simp add: identifierRegex_def isLetter_def)

end
